theory Spec2Isabelle
  imports Complex_Main "HOL-Library.Multiset"
begin

section \<open>JavaScript values\<close>

text \<open>
  A JavaScript number is a finite value, one of the two infinities, or NaN. Finite
  values are modelled by their exact rational value: rounding to binary64 and the
  sign of zero are not modelled.
\<close>

datatype jsnum = NaN | NegInf | Fin rat | PosInf

text \<open>\<^verbatim>\<open>Number.isFinite\<close> on a number.\<close>

fun Number_isFinite :: "jsnum \<Rightarrow> bool" where
  "Number_isFinite (Fin q) = True"
| "Number_isFinite NaN = False"
| "Number_isFinite NegInf = False"
| "Number_isFinite PosInf = False"

text \<open>The relational operators \<^verbatim>\<open>>\<close> and \<^verbatim>\<open>>=\<close>: false whenever an operand is NaN.\<close>

fun js_gt :: "jsnum \<Rightarrow> jsnum \<Rightarrow> bool" where
  "js_gt NaN b = False"
| "js_gt a NaN = False"
| "js_gt (Fin x) (Fin y) = (y < x)"
| "js_gt PosInf PosInf = False"
| "js_gt PosInf b = True"
| "js_gt a PosInf = False"
| "js_gt NegInf b = False"
| "js_gt a NegInf = True"

fun js_ge :: "jsnum \<Rightarrow> jsnum \<Rightarrow> bool" where
  "js_ge NaN b = False"
| "js_ge a NaN = False"
| "js_ge (Fin x) (Fin y) = (y \<le> x)"
| "js_ge PosInf b = True"
| "js_ge a NegInf = True"
| "js_ge a PosInf = False"
| "js_ge NegInf b = False"

text \<open>Subtraction and addition of numbers, with the IEEE rules for infinities and NaN.\<close>

fun js_minus :: "jsnum \<Rightarrow> jsnum \<Rightarrow> jsnum" where
  "js_minus NaN b = NaN"
| "js_minus a NaN = NaN"
| "js_minus (Fin x) (Fin y) = Fin (x - y)"
| "js_minus PosInf PosInf = NaN"
| "js_minus NegInf NegInf = NaN"
| "js_minus PosInf b = PosInf"
| "js_minus NegInf b = NegInf"
| "js_minus (Fin x) PosInf = NegInf"
| "js_minus (Fin x) NegInf = PosInf"

fun js_plus :: "jsnum \<Rightarrow> jsnum \<Rightarrow> jsnum" where
  "js_plus NaN b = NaN"
| "js_plus a NaN = NaN"
| "js_plus (Fin x) (Fin y) = Fin (x + y)"
| "js_plus PosInf NegInf = NaN"
| "js_plus NegInf PosInf = NaN"
| "js_plus PosInf b = PosInf"
| "js_plus NegInf b = NegInf"
| "js_plus (Fin x) PosInf = PosInf"
| "js_plus (Fin x) NegInf = NegInf"

text \<open>
  A value as \<^verbatim>\<open>snapshot.val()\<close> hands it to the code (\<^verbatim>\<open>unknown\<close>). An object
  is the list of its own enumerable entries in the order \<^verbatim>\<open>Object.entries\<close> lists
  them, its keys pairwise distinct; an array is the object keyed by its indices. The
  objects represented are those with the default prototype, as \<^verbatim>\<open>JSON.parse\<close> creates
  them, so that a property read finds own entries only. A string is the list of its
  code units; the strings represented are those whose code units are below 256.
\<close>

datatype jsval =
    JUndefined
  | JNull
  | JBool bool
  | JNum jsnum
  | JStr string
  | JObj "(string \<times> jsval) list"

datatype jstype = TUndefined | TObject | TBoolean | TNumber | TString

fun typeof :: "jsval \<Rightarrow> jstype" where
  "typeof JUndefined = TUndefined"
| "typeof JNull = TObject"
| "typeof (JBool b) = TBoolean"
| "typeof (JNum n) = TNumber"
| "typeof (JStr s) = TString"
| "typeof (JObj es) = TObject"

text \<open>ToBoolean: what \<^verbatim>\<open>!v\<close>, \<^verbatim>\<open>v && ...\<close> and \<^verbatim>\<open>if (v)\<close> test.\<close>

fun truthy :: "jsval \<Rightarrow> bool" where
  "truthy JUndefined = False"
| "truthy JNull = False"
| "truthy (JBool b) = b"
| "truthy (JNum n) = (n \<noteq> NaN \<and> n \<noteq> Fin 0)"
| "truthy (JStr s) = (s \<noteq> [])"
| "truthy (JObj es) = True"

text \<open>
  \<^verbatim>\<open>Object.entries\<close>. The code calls it only behind a check that the argument is a
  non-null object.
\<close>

fun Object_entries :: "jsval \<Rightarrow> (string \<times> jsval) list" where
  "Object_entries (JObj es) = es"
| "Object_entries v = []"

text \<open>
  The property read \<^verbatim>\<open>value?.key\<close> for the keys the code reads (\<^verbatim>\<open>flow\<close>,
  \<^verbatim>\<open>total\<close>, \<^verbatim>\<open>timestamp\<close>, \<^verbatim>\<open>r_value\<close>, \<^verbatim>\<open>threshold\<close>): \<^verbatim>\<open>undefined\<close> on
  \<^verbatim>\<open>null\<close>, \<^verbatim>\<open>undefined\<close>, a primitive, and an object without the key.
\<close>

fun get_prop :: "jsval \<Rightarrow> string \<Rightarrow> jsval" where
  "get_prop (JObj es) key = (case map_of es key of None \<Rightarrow> JUndefined | Some v \<Rightarrow> v)"
| "get_prop v key = JUndefined"

text \<open>
  Writing an own entry of an object held as its entry list: an existing key keeps its
  place, a new key goes last.
\<close>

fun own_set :: "(string \<times> 'a) list \<Rightarrow> string \<Rightarrow> 'a \<Rightarrow> (string \<times> 'a) list" where
  "own_set [] key v = [(key, v)]"
| "own_set ((k, w) # acc) key v = (if k = key then (k, v) # acc else (k, w) # own_set acc key v)"

text \<open>
  The assignment \<^verbatim>\<open>acc[key] = v\<close> on an object created by \<^verbatim>\<open>{}\<close>. For the key
  \<^verbatim>\<open>__proto__\<close> the assignment runs the setter inherited from \<^verbatim>\<open>Object.prototype\<close>:
  it replaces the prototype (when \<^verbatim>\<open>v\<close> is an object) and writes no own entry. Every
  other key writes an own entry.
\<close>

definition obj_set :: "(string \<times> 'a) list \<Rightarrow> string \<Rightarrow> 'a \<Rightarrow> (string \<times> 'a) list" where
  "obj_set acc key v = (if key = ''__proto__'' then acc else own_set acc key v)"

section \<open>parseFloat\<close>

text \<open>
  \<^verbatim>\<open>parseFloat\<close> of ECMAScript: leading white space is dropped, then the longest
  prefix that is a decimal literal (an optional sign, then \<^verbatim>\<open>Infinity\<close> or digits
  with an optional fraction and an optional exponent) gives the value; NaN when there
  is no such prefix. The white space characters with a code unit below 256 are the
  space, the controls 9 to 13 and the no-break space.
\<close>

definition is_digit :: "char \<Rightarrow> bool" where
  "is_digit c = (c \<in> set ''0123456789'')"

definition is_space :: "char \<Rightarrow> bool" where
  "is_space c = (c \<in> set [CHR '' '', CHR 0x09, CHR 0x0A, CHR 0x0B, CHR 0x0C, CHR 0x0D, CHR 0xA0])"

definition digit_val :: "char \<Rightarrow> nat" where
  "digit_val c = of_char c - 48"

definition digits_val :: "string \<Rightarrow> nat" where
  "digits_val ds = foldl (\<lambda>acc c. 10 * acc + digit_val c) 0 ds"

definition pow10 :: "int \<Rightarrow> rat" where
  "pow10 e = (if 0 \<le> e then 10 ^ nat e else 1 / 10 ^ nat (- e))"

text \<open>The exponent part at the head of a string: 0 when there is none.\<close>

definition exponent_part :: "string \<Rightarrow> int" where
  "exponent_part r =
     (case r of
        [] \<Rightarrow> 0
      | c # cs \<Rightarrow>
          if c = CHR ''e'' \<or> c = CHR ''E'' then
            (case cs of
               [] \<Rightarrow> 0
             | d # ds \<Rightarrow>
                 if d = CHR ''-'' then
                   (if takeWhile is_digit ds = [] then 0
                    else - int (digits_val (takeWhile is_digit ds)))
                 else if d = CHR ''+'' then
                   (if takeWhile is_digit ds = [] then 0
                    else int (digits_val (takeWhile is_digit ds)))
                 else
                   (if takeWhile is_digit cs = [] then 0
                    else int (digits_val (takeWhile is_digit cs))))
          else 0)"

text \<open>
  The Number value of a real: an infinity from the rounding boundary above the largest
  binary64 value on, zero up to half the least positive binary64 value. Rounding
  inside that range is not modelled.
\<close>

definition number_value :: "rat \<Rightarrow> jsnum" where
  "number_value x =
     (if 2 ^ 1024 - 2 ^ 970 \<le> \<bar>x\<bar> then (if x < 0 then NegInf else PosInf)
      else if \<bar>x\<bar> \<le> 1 / 2 ^ 1075 then Fin 0
      else Fin x)"

definition parseFloat :: "string \<Rightarrow> jsnum" where
  "parseFloat inputString =
     (let trimmed = dropWhile is_space inputString;
          neg = (case trimmed of [] \<Rightarrow> False | c # cs \<Rightarrow> c = CHR ''-'');
          rest = (case trimmed of
                    [] \<Rightarrow> []
                  | c # cs \<Rightarrow> if c = CHR ''-'' \<or> c = CHR ''+'' then cs else trimmed)
      in if take 8 rest = ''Infinity'' then (if neg then NegInf else PosInf)
         else
           let ip = takeWhile is_digit rest;
               r1 = dropWhile is_digit rest;
               fp = (case r1 of
                       [] \<Rightarrow> []
                     | c # cs \<Rightarrow> if c = CHR ''.'' then takeWhile is_digit cs else []);
               r2 = (case r1 of
                       [] \<Rightarrow> []
                     | c # cs \<Rightarrow> if c = CHR ''.'' then dropWhile is_digit cs else r1)
           in if ip = [] \<and> fp = [] then NaN
              else number_value
                     ((if neg then - 1 else 1) * of_nat (digits_val (ip @ fp))
                        / 10 ^ length fp * pow10 (exponent_part r2)))"

section \<open>Normalising the sensor set\<close>

record SensorData =
  flow :: string
  total :: string
  timestamp :: jsnum
  r_value :: "jsnum option"
  threshold :: "jsnum option"

type_synonym Sensors = "(string \<times> SensorData) list"

definition parseOptionalNumber :: "jsval \<Rightarrow> jsnum option" where
  "parseOptionalNumber v =
     (case v of
        JNum n \<Rightarrow> if Number_isFinite n then Some n else None
      | JStr s \<Rightarrow> (let parsed = parseFloat s in if Number_isFinite parsed then Some parsed else None)
      | _ \<Rightarrow> None)"

text \<open>
  One step of the \<^verbatim>\<open>reduce\<close>: the entry is stored when \<^verbatim>\<open>flow\<close> and \<^verbatim>\<open>total\<close> are
  strings and \<^verbatim>\<open>timestamp\<close> is a number, and only logged otherwise.
\<close>

definition normalizeSensors_step :: "string \<times> jsval \<Rightarrow> Sensors \<Rightarrow> Sensors" where
  "normalizeSensors_step kv acc =
     (case kv of (key, v) \<Rightarrow>
        (case (get_prop v ''flow'', get_prop v ''total'', get_prop v ''timestamp'') of
           (JStr f, JStr t, JNum ts) \<Rightarrow>
             obj_set acc key
               \<lparr> flow = f, total = t, timestamp = ts,
                 r_value = parseOptionalNumber (get_prop v ''r_value''),
                 threshold = parseOptionalNumber (get_prop v ''threshold'') \<rparr>
         | _ \<Rightarrow> acc))"

definition normalizeSensors :: "jsval \<Rightarrow> Sensors" where
  "normalizeSensors data =
     (if \<not> truthy data \<or> typeof data \<noteq> TObject then []
      else fold normalizeSensors_step (Object_entries data) [])"

text \<open>
  The returned object as a value again, to pass it back to \<open>normalizeSensors\<close>,
  which reads its argument through \<^verbatim>\<open>Object.entries\<close> only: the own entries, whatever
  the prototype of the returned object is.
\<close>

definition optional_to_js :: "jsnum option \<Rightarrow> jsval" where
  "optional_to_js x = (case x of None \<Rightarrow> JUndefined | Some n \<Rightarrow> JNum n)"

definition sensor_to_js :: "SensorData \<Rightarrow> jsval" where
  "sensor_to_js d =
     JObj [(''flow'', JStr (flow d)), (''total'', JStr (total d)),
           (''timestamp'', JNum (timestamp d)),
           (''r_value'', optional_to_js (r_value d)),
           (''threshold'', optional_to_js (threshold d))]"

definition sensors_to_js :: "Sensors \<Rightarrow> jsval" where
  "sensors_to_js ss = JObj (map (\<lambda>(k, d). (k, sensor_to_js d)) ss)"

section \<open>Normalising the history\<close>

text \<open>
  \<^verbatim>\<open>Array.prototype.sort\<close> with a comparator: the sort is stable, an element goes
  behind another exactly when the comparator's result for the pair is greater than
  zero, and a NaN result counts as zero. It is modelled by insertion from the right.
  Where the comparator, read this way, is not a consistent order, ECMAScript leaves
  the order of the result to the implementation, and the list computed here is only
  one of the possible results; the result is a permutation of the array in any case.
  For \<^verbatim>\<open>b.timestamp - a.timestamp\<close> this happens exactly when a timestamp is NaN, so
  the order of \<open>js_sort\<close> is relied on only for lists without a NaN timestamp.
\<close>

fun js_insert :: "('a \<Rightarrow> 'a \<Rightarrow> jsnum) \<Rightarrow> 'a \<Rightarrow> 'a list \<Rightarrow> 'a list" where
  "js_insert cmp x [] = [x]"
| "js_insert cmp x (y # ys) =
     (if js_gt (cmp x y) (Fin 0) then y # js_insert cmp x ys else x # y # ys)"

definition js_sort :: "('a \<Rightarrow> 'a \<Rightarrow> jsnum) \<Rightarrow> 'a list \<Rightarrow> 'a list" where
  "js_sort cmp xs = foldr (js_insert cmp) xs []"

record HistoryEntry = SensorData +
  sensorId :: string

text \<open>
  The inner \<^verbatim>\<open>forEach\<close>: a leaf record with the three mandatory fields is pushed
  with its sensor id, without \<^verbatim>\<open>r_value\<close> and \<^verbatim>\<open>threshold\<close>.
\<close>

definition normalizeHistory_leaf :: "string \<Rightarrow> string \<times> jsval \<Rightarrow> HistoryEntry list \<Rightarrow> HistoryEntry list" where
  "normalizeHistory_leaf sid kv entries =
     (case kv of (leafId, entry) \<Rightarrow>
        (case (get_prop entry ''flow'', get_prop entry ''total'', get_prop entry ''timestamp'') of
           (JStr f, JStr t, JNum ts) \<Rightarrow>
             entries @ [\<lparr> flow = f, total = t, timestamp = ts,
                          r_value = None, threshold = None, sensorId = sid \<rparr>]
         | _ \<Rightarrow> entries))"

definition normalizeHistory_sensor :: "string \<times> jsval \<Rightarrow> HistoryEntry list \<Rightarrow> HistoryEntry list" where
  "normalizeHistory_sensor kv entries =
     (case kv of (sid, sensorHistory) \<Rightarrow>
        if truthy sensorHistory \<and> typeof sensorHistory = TObject
        then fold (normalizeHistory_leaf sid) (Object_entries sensorHistory) entries
        else entries)"

definition normalizeHistory :: "jsval \<Rightarrow> HistoryEntry list" where
  "normalizeHistory data =
     (if \<not> truthy data \<or> typeof data \<noteq> TObject then []
      else js_sort (\<lambda>a b. js_minus (timestamp b) (timestamp a))
             (fold normalizeHistory_sensor (Object_entries data) []))"

section \<open>Derived state\<close>

text \<open>
  \<^verbatim>\<open>parseMetric\<close>: the argument is a string at every call that returns; the regular
  expression keeps the digits, the dot and the minus sign.
\<close>

definition parseMetric :: "string \<Rightarrow> jsnum" where
  "parseMetric v =
     (if v = [] then Fin 0
      else
        let numeric = parseFloat (filter (\<lambda>c. is_digit c \<or> c = CHR ''.'' \<or> c = CHR ''-'') v)
        in if Number_isFinite numeric then numeric else Fin 0)"

datatype HistoryFilter = Today | SevenDays | AllTime

text \<open>\<^verbatim>\<open>filterMap\<close>: the keys \<^verbatim>\<open>today\<close>, \<^verbatim>\<open>7d\<close> and \<^verbatim>\<open>all\<close>.\<close>

fun filterMap :: "HistoryFilter \<Rightarrow> jsnum" where
  "filterMap Today = Fin (24 * 60 * 60)"
| "filterMap SevenDays = Fin (7 * 24 * 60 * 60)"
| "filterMap AllTime = PosInf"

text \<open>
  \<^verbatim>\<open>filteredHistory\<close>; \<open>dateNow\<close> is what \<^verbatim>\<open>Date.now()\<close> returns, an integer number
  of milliseconds, so that \<^verbatim>\<open>now\<close> is finite.
\<close>

definition filteredHistory :: "HistoryEntry list \<Rightarrow> HistoryFilter \<Rightarrow> int \<Rightarrow> HistoryEntry list" where
  "filteredHistory history historyFilter dateNow =
     (if history = [] then []
      else
        let now = Fin (of_int dateNow / 1000);
            cutoff = js_minus now (filterMap historyFilter)
        in filter (\<lambda>entry. js_ge (timestamp entry) cutoff) history)"

text \<open>
  \<^verbatim>\<open>sensorEntries\<close>: the entries of the sensor set sorted by \<^verbatim>\<open>localeCompare\<close> of
  their keys. The collation depends on the locale and is a parameter.
\<close>

definition sensorEntries :: "(string \<Rightarrow> string \<Rightarrow> jsnum) \<Rightarrow> Sensors \<Rightarrow> (string \<times> SensorData) list" where
  "sensorEntries localeCompare ss = js_sort (\<lambda>a b. localeCompare (fst a) (fst b)) ss"

text \<open>\<^verbatim>\<open>Math.max\<close> of a list of numbers.\<close>

fun js_max :: "jsnum \<Rightarrow> jsnum \<Rightarrow> jsnum" where
  "js_max NaN b = NaN"
| "js_max a NaN = NaN"
| "js_max a b = (if js_gt b a then b else a)"

definition Math_max :: "jsnum list \<Rightarrow> jsnum" where
  "Math_max xs = fold (\<lambda>x m. js_max m x) xs NegInf"

text \<open>
  \<^verbatim>\<open>formatTimestamp\<close> and \<^verbatim>\<open>summary\<close>. The renderings \<^verbatim>\<open>toLocaleString\<close> and
  \<^verbatim>\<open>toFixed(3)\<close> of the runtime are parameters.
\<close>

definition formatTimestamp :: "(jsnum \<Rightarrow> string) \<Rightarrow> jsnum \<Rightarrow> string" where
  "formatTimestamp toLocaleString ts =
     (if \<not> truthy (JNum ts) then ''-'' else toLocaleString ts)"

record Summary =
  totalVolume :: string
  latestUpdate :: string

definition summary_total :: "(string \<times> SensorData) list \<Rightarrow> jsnum" where
  "summary_total entries =
     fold (\<lambda>kv acc. js_plus acc (parseMetric (total (snd kv)))) entries (Fin 0)"

definition summary :: "(jsnum \<Rightarrow> string) \<Rightarrow> (jsnum \<Rightarrow> string) \<Rightarrow> (string \<times> SensorData) list \<Rightarrow> Summary" where
  "summary toFixed3 toLocaleString entries =
     (if entries = [] then \<lparr> totalVolume = ''0.000 L'', latestUpdate = ''-'' \<rparr>
      else
        let latestTimestamp =
              Math_max (map (\<lambda>kv. if truthy (JNum (timestamp (snd kv)))
                                   then timestamp (snd kv) else Fin 0) entries)
        in \<lparr> totalVolume = toFixed3 (summary_total entries) @ '' L'',
             latestUpdate = formatTimestamp toLocaleString latestTimestamp \<rparr>)"

section \<open>The rolling chart window\<close>

record ChartDataPoint =
  point_timestamp :: jsnum
  flowrate :: jsnum
  timeLabel :: string

definition CHART_WINDOW_SIZE :: nat where
  "CHART_WINDOW_SIZE = 100"

text \<open>
  The updater passed to \<^verbatim>\<open>setChartData\<close>: the new point is appended to the series
  of the sensor (the empty series when the key is missing) and \<^verbatim>\<open>shift()\<close> drops the
  oldest point when the series is then longer than the window.
\<close>

definition setChartData_updater ::
    "string \<Rightarrow> ChartDataPoint \<Rightarrow> (string \<rightharpoonup> ChartDataPoint list) \<Rightarrow> (string \<rightharpoonup> ChartDataPoint list)" where
  "setChartData_updater sid newDataPoint prev =
     (let currentData = (case prev sid of None \<Rightarrow> [] | Some xs \<Rightarrow> xs);
          appended = currentData @ [newDataPoint];
          updated = (if length appended > CHART_WINDOW_SIZE then tl appended else appended)
      in prev(sid \<mapsto> updated))"

text \<open>The initial state of \<^verbatim>\<open>chartData\<close>.\<close>

definition chartData_initial :: "string \<rightharpoonup> ChartDataPoint list" where
  "chartData_initial =
     [''sensor1'' \<mapsto> [], ''sensor2'' \<mapsto> [], ''sensor3'' \<mapsto> [], ''sensor4'' \<mapsto> []]"

text \<open>The series the chart of a key reads: \<^verbatim>\<open>chartData[key] || []\<close>.\<close>

definition chart_series :: "(string \<rightharpoonup> ChartDataPoint list) \<Rightarrow> string \<Rightarrow> ChartDataPoint list" where
  "chart_series cd key = (case cd key of None \<Rightarrow> [] | Some xs \<Rightarrow> xs)"

text \<open>A run of pushes, each to a series key.\<close>

definition push_all ::
    "(string \<times> ChartDataPoint) list \<Rightarrow> (string \<rightharpoonup> ChartDataPoint list) \<Rightarrow> (string \<rightharpoonup> ChartDataPoint list)" where
  "push_all pushes cd = fold (\<lambda>kp. setChartData_updater (fst kp) (snd kp)) pushes cd"

section \<open>The sensor-set subscription\<close>

text \<open>
  The effect that subscribes to the sensor set. The state holds the React state the
  callbacks write (\<^verbatim>\<open>sensors\<close>, \<^verbatim>\<open>error\<close>, \<^verbatim>\<open>loading\<close>), the closure variable
  \<^verbatim>\<open>unsubscribe\<close> (the handle returned by the last \<^verbatim>\<open>onValue\<close>), and the data
  source's side: the listeners that are registered, each with the path index its
  callbacks were created for, and the next fresh handle. A listener stays registered
  until its handle is called or the source cancels it. The source delivers a snapshot
  to a listener after the \<^verbatim>\<open>onValue\<close> call that registered it has returned.
\<close>

definition tryPaths :: "string list" where
  "tryPaths = [''sensorsCurrent'', ''/'']"

record sensor_stream =
  sensors :: Sensors
  error :: "string option"
  loading :: bool
  unsubscribe :: "nat option"
  listeners :: "(nat \<times> nat) list"
  fresh :: nat

definition subscribeToPath :: "nat \<Rightarrow> sensor_stream \<Rightarrow> sensor_stream" where
  "subscribeToPath pathIndex s =
     (if pathIndex \<ge> length tryPaths
      then s\<lparr> error := Some ''Tidak dapat terhubung ke Firebase. Periksa konfigurasi.'',
              loading := False \<rparr>
      else s\<lparr> unsubscribe := Some (fresh s),
              listeners := listeners s @ [(fresh s, pathIndex)],
              fresh := Suc (fresh s) \<rparr>)"

text \<open>
  The value callback created by \<^verbatim>\<open>subscribeToPath(pathIndex)\<close>. \<open>normalizeSensors\<close>
  raises nothing, so the \<^verbatim>\<open>catch\<close> branch is never taken; \<^verbatim>\<open>finally\<close> clears
  \<^verbatim>\<open>loading\<close> on every branch.
\<close>

definition on_snapshot :: "nat \<Rightarrow> jsval \<Rightarrow> sensor_stream \<Rightarrow> sensor_stream" where
  "on_snapshot pathIndex data s =
     (if truthy data
      then s\<lparr> sensors := normalizeSensors data, error := None, loading := False \<rparr>
      else if pathIndex < length tryPaths - 1
      then (subscribeToPath (pathIndex + 1) s)\<lparr> loading := False \<rparr>
      else s\<lparr> sensors := [], loading := False \<rparr>)"

text \<open>The error callback created by \<^verbatim>\<open>subscribeToPath(pathIndex)\<close>.\<close>

definition on_error :: "nat \<Rightarrow> sensor_stream \<Rightarrow> sensor_stream" where
  "on_error pathIndex s =
     (if pathIndex < length tryPaths - 1 then subscribeToPath (pathIndex + 1) s
      else s\<lparr> error := Some ''Koneksi Firebase bermasalah.'', loading := False \<rparr>)"

text \<open>
  What can happen to the effect: the source delivers a snapshot to a listener, the
  source cancels a listener with an error (which removes it), or React runs the
  cleanup. Callbacks run only for registered listeners.
\<close>

datatype event = Snapshot nat jsval | Cancelled nat | Cleanup

definition remove_listener :: "nat \<Rightarrow> (nat \<times> 'a) list \<Rightarrow> (nat \<times> 'a) list" where
  "remove_listener h ls = filter (\<lambda>l. fst l \<noteq> h) ls"

fun sensor_step :: "event \<Rightarrow> sensor_stream \<Rightarrow> sensor_stream" where
  "sensor_step (Snapshot h data) s =
     (case map_of (listeners s) h of
        None \<Rightarrow> s
      | Some pathIndex \<Rightarrow> on_snapshot pathIndex data s)"
| "sensor_step (Cancelled h) s =
     (case map_of (listeners s) h of
        None \<Rightarrow> s
      | Some pathIndex \<Rightarrow> on_error pathIndex (s\<lparr> listeners := remove_listener h (listeners s) \<rparr>))"
| "sensor_step Cleanup s =
     (case unsubscribe s of
        None \<Rightarrow> s
      | Some h \<Rightarrow> s\<lparr> listeners := remove_listener h (listeners s) \<rparr>)"

text \<open>The effect body: the initial React state, then \<^verbatim>\<open>subscribeToPath(0)\<close>.\<close>

definition sensor_mount :: sensor_stream where
  "sensor_mount =
     subscribeToPath 0
       \<lparr> sensors = [], error = None, loading = True, unsubscribe = None,
         listeners = [], fresh = 0 \<rparr>"

definition sensor_run :: "event list \<Rightarrow> sensor_stream \<Rightarrow> sensor_stream" where
  "sensor_run evs s = fold sensor_step evs s"

section \<open>The chart subscriptions\<close>

text \<open>
  The effect that feeds the charts of \<^verbatim>\<open>sensor1\<close> to \<^verbatim>\<open>sensor4\<close>. Every handle
  returned by \<^verbatim>\<open>onValue\<close> is pushed on the array \<^verbatim>\<open>unsubscribes\<close>, which the
  cleanup walks. A registered listener carries the sensor id and the path index of
  its callbacks.
\<close>

definition sensorIds :: "string list" where
  "sensorIds = [''sensor1'', ''sensor2'', ''sensor3'', ''sensor4'']"

definition chart_tryPaths :: "string \<Rightarrow> string list" where
  "chart_tryPaths sid = [''sensorsCurrent/'' @ sid, ''/'' @ sid]"

record chart_stream =
  chartData :: "string \<rightharpoonup> ChartDataPoint list"
  unsubscribes :: "nat list"
  chart_listeners :: "(nat \<times> string \<times> nat) list"
  chart_fresh :: nat

definition chart_subscribeToPath :: "string \<Rightarrow> nat \<Rightarrow> chart_stream \<Rightarrow> chart_stream" where
  "chart_subscribeToPath sid pathIndex c =
     (if pathIndex \<ge> length (chart_tryPaths sid) then c
      else c\<lparr> chart_listeners := chart_listeners c @ [(chart_fresh c, sid, pathIndex)],
              unsubscribes := unsubscribes c @ [chart_fresh c],
              chart_fresh := Suc (chart_fresh c) \<rparr>)"

text \<open>
  The value callback. \<^verbatim>\<open>parseMetric(data.flow)\<close> raises a TypeError on a truthy
  \<^verbatim>\<open>flow\<close> that is not a string; the \<^verbatim>\<open>catch\<close> logs it and nothing changes. The
  rendering of the time label is a parameter.
\<close>

definition chart_on_snapshot ::
    "(jsnum \<Rightarrow> string) \<Rightarrow> string \<Rightarrow> nat \<Rightarrow> jsval \<Rightarrow> chart_stream \<Rightarrow> chart_stream" where
  "chart_on_snapshot toLocaleTimeString sid pathIndex data c =
     (if truthy data \<and> truthy (get_prop data ''flow'')
         \<and> typeof (get_prop data ''timestamp'') = TNumber
      then
        (case (get_prop data ''flow'', get_prop data ''timestamp'') of
           (JStr fl, JNum ts) \<Rightarrow>
             c\<lparr> chartData :=
                  setChartData_updater sid
                    \<lparr> point_timestamp = ts, flowrate = parseMetric fl,
                      timeLabel = toLocaleTimeString ts \<rparr>
                    (chartData c) \<rparr>
         | _ \<Rightarrow> c)
      else if pathIndex < length (chart_tryPaths sid) - 1
      then chart_subscribeToPath sid (pathIndex + 1) c
      else c)"

definition chart_on_error :: "string \<Rightarrow> nat \<Rightarrow> chart_stream \<Rightarrow> chart_stream" where
  "chart_on_error sid pathIndex c =
     (if pathIndex < length (chart_tryPaths sid) - 1
      then chart_subscribeToPath sid (pathIndex + 1) c
      else c)"

fun chart_step :: "(jsnum \<Rightarrow> string) \<Rightarrow> event \<Rightarrow> chart_stream \<Rightarrow> chart_stream" where
  "chart_step fmt (Snapshot h data) c =
     (case map_of (chart_listeners c) h of
        None \<Rightarrow> c
      | Some (sid, pathIndex) \<Rightarrow> chart_on_snapshot fmt sid pathIndex data c)"
| "chart_step fmt (Cancelled h) c =
     (case map_of (chart_listeners c) h of
        None \<Rightarrow> c
      | Some (sid, pathIndex) \<Rightarrow>
          chart_on_error sid pathIndex
            (c\<lparr> chart_listeners := remove_listener h (chart_listeners c) \<rparr>))"
| "chart_step fmt Cleanup c =
     c\<lparr> chart_listeners := fold remove_listener (unsubscribes c) (chart_listeners c) \<rparr>"

definition chart_mount :: chart_stream where
  "chart_mount =
     fold (\<lambda>sid. chart_subscribeToPath sid 0) sensorIds
       \<lparr> chartData = chartData_initial, unsubscribes = [], chart_listeners = [],
         chart_fresh = 0 \<rparr>"

definition chart_run :: "(jsnum \<Rightarrow> string) \<Rightarrow> event list \<Rightarrow> chart_stream \<Rightarrow> chart_stream" where
  "chart_run fmt evs c = fold (chart_step fmt) evs c"

section \<open>Leak detection\<close>

text \<open>
  \<^verbatim>\<open>isLeakageDetected(globalRValue?: number, globalThreshold?: number)\<close>: an absent
  (\<^verbatim>\<open>undefined\<close>) argument is \<open>None\<close>.
\<close>

definition isLeakageDetected :: "jsnum option \<Rightarrow> jsnum option \<Rightarrow> bool" where
  "isLeakageDetected globalRValue globalThreshold =
     (case (globalRValue, globalThreshold) of
        (None, _) \<Rightarrow> False
      | (_, None) \<Rightarrow> False
      | (Some r, Some t) \<Rightarrow>
          if \<not> Number_isFinite r \<or> \<not> Number_isFinite t then False
          else js_gt r t)"

section \<open>Notions used in the statements\<close>

text \<open>
  The admission rule as the specification words it: \<^verbatim>\<open>flow\<close> and \<^verbatim>\<open>total\<close> are
  strings and \<^verbatim>\<open>timestamp\<close> is a number.
\<close>

definition mandatory_ok :: "jsval \<Rightarrow> bool" where
  "mandatory_ok v =
     (typeof (get_prop v ''flow'') = TString \<and> typeof (get_prop v ''total'') = TString
      \<and> typeof (get_prop v ''timestamp'') = TNumber)"

text \<open>
  The entries \<open>normalizeSensors\<close> stores: those that pass the admission rule under a
  key other than \<^verbatim>\<open>__proto__\<close>.
\<close>

definition stored_entry :: "string \<times> jsval \<Rightarrow> bool" where
  "stored_entry kv = (fst kv \<noteq> ''__proto__'' \<and> mandatory_ok (snd kv))"

text \<open>
  The string and the number a value carries, and the snapshot an admitted record
  stands for.
\<close>

fun the_string :: "jsval \<Rightarrow> string" where
  "the_string (JStr s) = s"
| "the_string v = []"

fun the_number :: "jsval \<Rightarrow> jsnum" where
  "the_number (JNum n) = n"
| "the_number v = NaN"

definition admitted_sensor :: "jsval \<Rightarrow> SensorData" where
  "admitted_sensor v =
     \<lparr> flow = the_string (get_prop v ''flow''), total = the_string (get_prop v ''total''),
       timestamp = the_number (get_prop v ''timestamp''),
       r_value = parseOptionalNumber (get_prop v ''r_value''),
       threshold = parseOptionalNumber (get_prop v ''threshold'') \<rparr>"

text \<open>
  An optional number of a normalised snapshot is absent or finite.
\<close>

definition normal_optional :: "jsnum option \<Rightarrow> bool" where
  "normal_optional x = (case x of None \<Rightarrow> True | Some n \<Rightarrow> Number_isFinite n)"

definition normal_sensor :: "SensorData \<Rightarrow> bool" where
  "normal_sensor d = (normal_optional (r_value d) \<and> normal_optional (threshold d))"

text \<open>
  The flattened history as the specification words it: the admitted leaf records in
  encounter order, sensor by sensor and leaf by leaf, each with its sensor id.
\<close>

definition history_entry :: "string \<Rightarrow> jsval \<Rightarrow> HistoryEntry" where
  "history_entry sid v =
     \<lparr> flow = the_string (get_prop v ''flow''), total = the_string (get_prop v ''total''),
       timestamp = the_number (get_prop v ''timestamp''),
       r_value = None, threshold = None, sensorId = sid \<rparr>"

definition admitted_leaves :: "string \<times> jsval \<Rightarrow> HistoryEntry list" where
  "admitted_leaves kv =
     (if truthy (snd kv) \<and> typeof (snd kv) = TObject
      then map (\<lambda>leaf. history_entry (fst kv) (snd leaf))
             (filter (\<lambda>leaf. mandatory_ok (snd leaf)) (Object_entries (snd kv)))
      else [])"

definition flatten_history :: "jsval \<Rightarrow> HistoryEntry list" where
  "flatten_history data = concat (map admitted_leaves (Object_entries data))"

text \<open>
  The last \<open>CHART_WINDOW_SIZE\<close> elements of a list, and the points a run of pushes
  sends to one series key, in push order.
\<close>

definition window :: "'a list \<Rightarrow> 'a list" where
  "window xs = drop (length xs - CHART_WINDOW_SIZE) xs"

definition series_pushes :: "string \<Rightarrow> (string \<times> ChartDataPoint) list \<Rightarrow> ChartDataPoint list" where
  "series_pushes key pushes = map snd (filter (\<lambda>kp. fst kp = key) pushes)"

text \<open>
  The value of a finite number.
\<close>

fun the_finite :: "jsnum \<Rightarrow> rat" where
  "the_finite (Fin q) = q"
| "the_finite n = 0"

text \<open>
  The invariant of the chart effect: the handle of every registered listener is on
  \<^verbatim>\<open>unsubscribes\<close>.
\<close>

definition chart_inv :: "chart_stream \<Rightarrow> bool" where
  "chart_inv c = (\<forall>l \<in> set (chart_listeners c). fst l \<in> set (unsubscribes c))"

text \<open>
  Concrete payloads and states at which the theorems are instantiated.
\<close>

definition example_sensors :: jsval where
  "example_sensors =
     JObj [(''sensor1'', JObj [(''flow'', JStr ''1.2 L/min''), (''total'', JStr ''2.50 L''),
                               (''timestamp'', JNum (Fin 1700000000)),
                               (''r_value'', JStr ''0.75''), (''threshold'', JStr ''n/a'')]),
           (''broken'', JObj [(''flow'', JStr ''1.0 L/min''), (''total'', JNum (Fin 3))]),
           (''gone'', JNull)]"

definition example_history :: jsval where
  "example_history =
     JObj [(''sensor1'', JObj [(''a'', JObj [(''flow'', JStr ''1''), (''total'', JStr ''10''),
                                            (''timestamp'', JNum (Fin 5)), (''r_value'', JNum (Fin 2))]),
                               (''b'', JObj [(''flow'', JStr ''2''), (''total'', JStr ''20''),
                                            (''timestamp'', JNum (Fin 9)), (''threshold'', JNum (Fin 1))])]),
           (''sensor2'', JObj [(''c'', JObj [(''flow'', JStr ''3''), (''total'', JStr ''30''),
                                            (''timestamp'', JNum (Fin 5))]),
                               (''d'', JObj [(''flow'', JStr ''4'')])]),
           (''note'', JStr ''x'')]"

definition example_point :: ChartDataPoint where
  "example_point = \<lparr> point_timestamp = Fin 1700000000, flowrate = Fin (5 / 2), timeLabel = ''10:00:00'' \<rparr>"

definition example_entry :: "rat \<Rightarrow> HistoryEntry" where
  "example_entry t =
     \<lparr> flow = ''1.0 L/min'', total = ''2.50 L'', timestamp = Fin t,
       r_value = None, threshold = None, sensorId = ''sensor1'' \<rparr>"

definition example_set :: Sensors where
  "example_set =
     [(''sensor2'', \<lparr> flow = ''0.5 L/min'', total = ''1.25 L'', timestamp = Fin 1700000000,
                      r_value = None, threshold = None \<rparr>),
      (''sensor1'', \<lparr> flow = ''1.2 L/min'', total = ''2.50 L'', timestamp = Fin 1700000060,
                      r_value = None, threshold = None \<rparr>),
      (''sensor3'', \<lparr> flow = ''-'', total = ''n/a'', timestamp = Fin 1700000120,
                      r_value = None, threshold = None \<rparr>)]"

definition example_record :: jsval where
  "example_record =
     JObj [(''flow'', JStr ''1.2 L/min''), (''total'', JStr ''2.50 L''),
           (''timestamp'', JNum (Fin 1700000000))]"

definition example_proto :: jsval where
  "example_proto = JObj [(''__proto__'', example_record), (''sensor1'', example_record)]"

definition example_history_nan :: jsval where
  "example_history_nan =
     JObj [(''sensor1'', JObj [(''a'', JObj [(''flow'', JStr ''1''), (''total'', JStr ''10''),
                                            (''timestamp'', JNum NaN)]),
                               (''b'', JObj [(''flow'', JStr ''2''), (''total'', JStr ''20''),
                                            (''timestamp'', JNum (Fin 1))])])]"

definition example_entry_nan :: HistoryEntry where
  "example_entry_nan =
     \<lparr> flow = ''1.0 L/min'', total = ''2.50 L'', timestamp = NaN,
       r_value = None, threshold = None, sensorId = ''sensor1'' \<rparr>"

definition no_label :: "jsnum \<Rightarrow> string" where
  "no_label n = []"

section \<open>Properties of leak detection\<close>

text \<open>
  C3. \<open>isLeakageDetected\<close> returns false whenever either argument is absent, NaN or
  an infinity; on two finite numbers it returns true exactly when the first is
  strictly greater than the second. In particular (5, 3) gives true, (3, 5) and
  (5, 5) give false.
\<close>

theorem isLeakageDetected_strict_gt:
  "isLeakageDetected None y = False
   \<and> isLeakageDetected x None = False
   \<and> isLeakageDetected (Some NaN) y = False
   \<and> isLeakageDetected (Some PosInf) y = False
   \<and> isLeakageDetected (Some NegInf) y = False
   \<and> isLeakageDetected x (Some NaN) = False
   \<and> isLeakageDetected x (Some PosInf) = False
   \<and> isLeakageDetected x (Some NegInf) = False
   \<and> isLeakageDetected (Some (Fin p)) (Some (Fin q)) = (q < p)
   \<and> isLeakageDetected (Some (Fin 5)) (Some (Fin 3)) = True
   \<and> isLeakageDetected (Some (Fin 3)) (Some (Fin 5)) = False
   \<and> isLeakageDetected (Some (Fin 5)) (Some (Fin 5)) = False"
  by (cases x; cases y) (simp_all add: isLeakageDetected_def)

theorem isLeakageDetected_strict_gt_witness:
  "isLeakageDetected (Some (Fin 7)) (Some (Fin 2))
   \<and> \<not> isLeakageDetected (Some (Fin 2)) (Some (Fin 2))
   \<and> \<not> isLeakageDetected (Some PosInf) (Some (Fin 2))
   \<and> \<not> isLeakageDetected None (Some (Fin 2))"
  using isLeakageDetected_strict_gt [of "Some (Fin 2)" "Some (Fin 2)" 7 2]
    isLeakageDetected_strict_gt [of "Some (Fin 2)" "Some (Fin 2)" 2 2]
  by simp

section \<open>Properties of normalizeSensors\<close>

lemma typeof_string_iff: "typeof v = TString \<longleftrightarrow> (\<exists>s. v = JStr s)"
  by (cases v) simp_all

lemma typeof_number_iff: "typeof v = TNumber \<longleftrightarrow> (\<exists>n. v = JNum n)"
  by (cases v) simp_all

lemma step_admitted:
  "mandatory_ok v \<Longrightarrow> normalizeSensors_step (k, v) acc = obj_set acc k (admitted_sensor v)"
  by (auto simp: mandatory_ok_def typeof_string_iff typeof_number_iff
        normalizeSensors_step_def admitted_sensor_def)

lemma step_not_admitted:
  "\<not> mandatory_ok v \<Longrightarrow> normalizeSensors_step (k, v) acc = acc"
  by (auto simp: mandatory_ok_def typeof_string_iff typeof_number_iff
        normalizeSensors_step_def split: jsval.splits)

lemma step_stored:
  "stored_entry (k, v) \<Longrightarrow> normalizeSensors_step (k, v) acc = own_set acc k (admitted_sensor v)"
  by (simp add: stored_entry_def step_admitted obj_set_def)

lemma step_skipped:
  "\<not> stored_entry (k, v) \<Longrightarrow> normalizeSensors_step (k, v) acc = acc"
  by (cases "mandatory_ok v") (simp_all add: stored_entry_def step_admitted step_not_admitted obj_set_def)

lemma own_set_fresh: "k \<notin> fst ` set acc \<Longrightarrow> own_set acc k v = acc @ [(k, v)]"
  by (induction acc) auto

lemma fold_step_distinct:
  "distinct (map fst es) \<Longrightarrow> fst ` set acc \<inter> fst ` set es = {} \<Longrightarrow>
   fold normalizeSensors_step es acc =
     acc @ map (\<lambda>kv. (fst kv, admitted_sensor (snd kv))) (filter stored_entry es)"
proof (induction es arbitrary: acc)
  case Nil
  then show ?case by simp
next
  case (Cons e es)
  obtain k v where e: "e = (k, v)" by (cases e)
  show ?case
  proof (cases "stored_entry (k, v)")
    case True
    have fresh: "k \<notin> fst ` set acc" using Cons.prems(2) e by auto
    have disj: "fst ` set (acc @ [(k, admitted_sensor v)]) \<inter> fst ` set es = {}"
      using Cons.prems e by auto
    have "fold normalizeSensors_step (e # es) acc
            = fold normalizeSensors_step es (acc @ [(k, admitted_sensor v)])"
      using True fresh by (simp add: e step_stored own_set_fresh)
    also have "\<dots> = (acc @ [(k, admitted_sensor v)]) @
        map (\<lambda>kv. (fst kv, admitted_sensor (snd kv))) (filter stored_entry es)"
      using Cons.prems(1) disj by (intro Cons.IH) simp_all
    finally show ?thesis using True by (simp add: e)
  next
    case False
    have disj: "fst ` set acc \<inter> fst ` set es = {}" using Cons.prems(2) by auto
    have "fold normalizeSensors_step (e # es) acc = fold normalizeSensors_step es acc"
      using False by (simp add: e step_skipped)
    also have "\<dots> = acc @
        map (\<lambda>kv. (fst kv, admitted_sensor (snd kv))) (filter stored_entry es)"
      using Cons.prems(1) disj by (intro Cons.IH) simp_all
    finally show ?thesis using False by (simp add: e)
  qed
qed

lemma normalizeSensors_object:
  "distinct (map fst es) \<Longrightarrow>
   normalizeSensors (JObj es) =
     map (\<lambda>kv. (fst kv, admitted_sensor (snd kv))) (filter stored_entry es)"
  using fold_step_distinct [of es "[]"] by (simp add: normalizeSensors_def)

lemma normalizeSensors_not_object:
  "\<not> truthy data \<or> typeof data \<noteq> TObject \<Longrightarrow> normalizeSensors data = []"
  by (simp add: normalizeSensors_def)

lemma parseOptionalNumber_Some_iff:
  "parseOptionalNumber v = Some n \<longleftrightarrow>
     Number_isFinite n \<and> (v = JNum n \<or> (\<exists>s. v = JStr s \<and> parseFloat s = n))"
  by (cases v) (auto simp: parseOptionalNumber_def Let_def)

lemmas eval_defs = normalizeSensors_def normalizeSensors_step_def parseOptionalNumber_def
  parseFloat_def is_digit_def is_space_def digits_val_def digit_val_def pow10_def exponent_part_def
  mandatory_ok_def obj_set_def number_value_def stored_entry_def

text \<open>
  \<open>parseFloat\<close> at the edges: a prefix is enough, a literal beyond the binary64
  range reads as an infinity (and is then not a finite number), one below it as zero,
  and a leading no-break space is skipped.
\<close>

lemma parseFloat_examples:
  "parseFloat ''12.5abc'' = Fin (25 / 2)
   \<and> parseFloat ''1e400'' = PosInf
   \<and> parseFloat ''-1e400'' = NegInf
   \<and> parseFloat ''1e-400'' = Fin 0
   \<and> parseFloat [CHR 0xA0, CHR ''7''] = Fin 7
   \<and> parseFloat ''abc'' = NaN
   \<and> parseOptionalNumber (JStr ''1e400'') = None
   \<and> parseOptionalNumber (JStr ''abc'') = None"
  by (simp add: eval_defs)

lemma parseOptionalNumber_normal: "normal_optional (parseOptionalNumber v)"
  by (cases v) (simp_all add: parseOptionalNumber_def normal_optional_def Let_def)

lemma parseOptionalNumber_optional_to_js:
  "normal_optional x \<Longrightarrow> parseOptionalNumber (optional_to_js x) = x"
  by (cases x) (simp_all add: parseOptionalNumber_def normal_optional_def optional_to_js_def)

lemma admitted_sensor_normal: "normal_sensor (admitted_sensor v)"
  by (simp add: normal_sensor_def admitted_sensor_def parseOptionalNumber_normal)

lemma mandatory_ok_sensor_to_js: "mandatory_ok (sensor_to_js d)"
  by (simp add: mandatory_ok_def sensor_to_js_def)

lemma admitted_sensor_to_js:
  "normal_sensor d \<Longrightarrow> admitted_sensor (sensor_to_js d) = d"
  by (simp add: normal_sensor_def admitted_sensor_def sensor_to_js_def
        parseOptionalNumber_optional_to_js)

lemma keys_own_set: "set (map fst (own_set acc k v)) = insert k (set (map fst acc))"
proof (induction acc)
  case Nil
  then show ?case by simp
next
  case (Cons a acc)
  obtain k' w where a: "a = (k', w)" by (cases a)
  show ?case using Cons.IH by (cases "k' = k") (auto simp: a)
qed

lemma distinct_own_set:
  "distinct (map fst acc) \<Longrightarrow> distinct (map fst (own_set acc k v))"
proof (induction acc)
  case Nil
  then show ?case by simp
next
  case (Cons a acc)
  obtain k' w where a: "a = (k', w)" by (cases a)
  show ?case
  proof (cases "k' = k")
    case True
    then show ?thesis using Cons.prems by (simp add: a)
  next
    case False
    have "k' \<notin> set (map fst (own_set acc k v))"
      using Cons.prems False unfolding keys_own_set by (simp add: a)
    then show ?thesis using Cons False by (simp add: a)
  qed
qed

lemma values_own_set:
  "P v \<Longrightarrow> list_all (\<lambda>kv. P (snd kv)) acc \<Longrightarrow> list_all (\<lambda>kv. P (snd kv)) (own_set acc k v)"
  by (induction acc) (auto split: if_splits)

lemma distinct_obj_set:
  "distinct (map fst acc) \<Longrightarrow> distinct (map fst (obj_set acc k v))"
  by (simp add: obj_set_def distinct_own_set)

lemma values_obj_set:
  "P v \<Longrightarrow> list_all (\<lambda>kv. P (snd kv)) acc \<Longrightarrow> list_all (\<lambda>kv. P (snd kv)) (obj_set acc k v)"
  by (simp add: obj_set_def values_own_set)

lemma no_proto_obj_set:
  assumes "''__proto__'' \<notin> set (map fst acc)"
  shows "''__proto__'' \<notin> set (map fst (obj_set acc k v))"
proof (cases "k = ''__proto__''")
  case True
  then show ?thesis using assms by (simp add: obj_set_def)
next
  case False
  have "''__proto__'' \<notin> set (map fst (own_set acc k v))"
    unfolding keys_own_set using False assms by simp
  then show ?thesis using False by (simp add: obj_set_def)
qed

lemma step_invariant:
  assumes "distinct (map fst acc)" and "list_all (\<lambda>kv. normal_sensor (snd kv)) acc"
    and "''__proto__'' \<notin> set (map fst acc)"
  shows "distinct (map fst (normalizeSensors_step e acc))
         \<and> list_all (\<lambda>kv. normal_sensor (snd kv)) (normalizeSensors_step e acc)
         \<and> ''__proto__'' \<notin> set (map fst (normalizeSensors_step e acc))"
proof -
  obtain k v where e: "e = (k, v)" by (cases e)
  show ?thesis
  proof (cases "mandatory_ok v")
    case True
    have "distinct (map fst (obj_set acc k (admitted_sensor v)))"
      using assms(1) by (rule distinct_obj_set)
    moreover have "list_all (\<lambda>kv. normal_sensor (snd kv)) (obj_set acc k (admitted_sensor v))"
      using admitted_sensor_normal assms(2) by (rule values_obj_set)
    moreover have "''__proto__'' \<notin> set (map fst (obj_set acc k (admitted_sensor v)))"
      using assms(3) by (rule no_proto_obj_set)
    ultimately show ?thesis using True by (simp only: e step_admitted simp_thms)
  next
    case False
    then show ?thesis using assms by (simp add: e step_not_admitted)
  qed
qed

lemma fold_step_invariant:
  "distinct (map fst acc) \<Longrightarrow> list_all (\<lambda>kv. normal_sensor (snd kv)) acc \<Longrightarrow>
   ''__proto__'' \<notin> set (map fst acc) \<Longrightarrow>
   distinct (map fst (fold normalizeSensors_step es acc))
   \<and> list_all (\<lambda>kv. normal_sensor (snd kv)) (fold normalizeSensors_step es acc)
   \<and> ''__proto__'' \<notin> set (map fst (fold normalizeSensors_step es acc))"
proof (induction es arbitrary: acc)
  case Nil
  then show ?case by simp
next
  case (Cons e es)
  have "distinct (map fst (normalizeSensors_step e acc))"
    and "list_all (\<lambda>kv. normal_sensor (snd kv)) (normalizeSensors_step e acc)"
    and "''__proto__'' \<notin> set (map fst (normalizeSensors_step e acc))"
    using step_invariant [OF Cons.prems, of e] by simp_all
  from Cons.IH [OF this] show ?case by simp
qed

lemma normalizeSensors_invariant:
  "distinct (map fst (normalizeSensors data))
   \<and> list_all (\<lambda>kv. normal_sensor (snd kv)) (normalizeSensors data)
   \<and> ''__proto__'' \<notin> set (map fst (normalizeSensors data))"
  using fold_step_invariant [of "[]" "Object_entries data"]
  by (simp add: normalizeSensors_def)

lemma map_fst_sensors_to_js: "map fst (map (\<lambda>(k, d). (k, sensor_to_js d)) ss) = map fst ss"
  by (induction ss) auto

lemma normalizeSensors_fixpoint:
  assumes "distinct (map fst ss)" and "list_all (\<lambda>kv. normal_sensor (snd kv)) ss"
    and "''__proto__'' \<notin> set (map fst ss)"
  shows "normalizeSensors (sensors_to_js ss) = ss"
proof -
  let ?es = "map (\<lambda>(k, d). (k, sensor_to_js d)) ss"
  have "distinct (map fst ?es)" using assms(1) by (simp only: map_fst_sensors_to_js)
  then have "normalizeSensors (JObj ?es)
          = map (\<lambda>kv. (fst kv, admitted_sensor (snd kv))) (filter stored_entry ?es)"
    by (rule normalizeSensors_object)
  also have "filter stored_entry ?es = ?es"
    using assms(3) by (induction ss) (auto simp: stored_entry_def mandatory_ok_sensor_to_js)
  also have "map (\<lambda>kv. (fst kv, admitted_sensor (snd kv))) ?es = ss"
    using assms(2) by (induction ss) (auto simp: admitted_sensor_to_js)
  finally show ?thesis by (simp add: sensors_to_js_def)
qed

text \<open>
  Counterexample to C1 as stated. The input has the own key \<^verbatim>\<open>__proto__\<close> (as
  \<^verbatim>\<open>JSON.parse\<close> creates it) with a record that passes the mandatory-field check. The
  assignment \<^verbatim>\<open>acc[key] = ...\<close> replaces the prototype of the result for that key, so
  the key is not among the keys of the result.
\<close>

theorem proto_key_not_admitted:
  "Object_entries example_proto = [(''__proto__'', example_record), (''sensor1'', example_record)]
   \<and> mandatory_ok example_record
   \<and> map fst (normalizeSensors example_proto) = [''sensor1'']"
  by (simp add: example_proto_def example_record_def eval_defs)

text \<open>
  C1 (as the code has it). \<open>normalizeSensors\<close> returns the empty set on an absent
  value and on a value that is not an object. On an object (its keys pairwise
  distinct, as in every JavaScript object) the keys of the result are exactly the
  keys other than \<^verbatim>\<open>__proto__\<close> whose record has a string \<^verbatim>\<open>flow\<close>, a string
  \<^verbatim>\<open>total\<close> and a number \<^verbatim>\<open>timestamp\<close>, in the order of the input; the other entries
  are skipped, and \<^verbatim>\<open>__proto__\<close> is never a key of the result. The entry of an
  admitted key carries the three fields unchanged; its \<^verbatim>\<open>r_value\<close> and \<^verbatim>\<open>threshold\<close>
  are present exactly when the record's field is a finite number or a string from
  which \<open>parseFloat\<close> reads a finite number, and absent otherwise (an absent field
  stays absent, it is not zero). The function is total: none of its branches raises.
\<close>

theorem normalizeSensors_admits:
  "(\<not> truthy data \<or> typeof data \<noteq> TObject \<longrightarrow> normalizeSensors data = [])
   \<and> ''__proto__'' \<notin> set (map fst (normalizeSensors data))
   \<and> (distinct (map fst es) \<longrightarrow>
        map fst (normalizeSensors (JObj es))
          = map fst (filter (\<lambda>kv. fst kv \<noteq> ''__proto__'' \<and> mandatory_ok (snd kv)) es)
        \<and> (\<forall>kv \<in> set es. fst kv \<noteq> ''__proto__'' \<and> mandatory_ok (snd kv) \<longrightarrow>
             (\<exists>d. map_of (normalizeSensors (JObj es)) (fst kv) = Some d
                  \<and> JStr (flow d) = get_prop (snd kv) ''flow''
                  \<and> JStr (total d) = get_prop (snd kv) ''total''
                  \<and> JNum (timestamp d) = get_prop (snd kv) ''timestamp''
                  \<and> r_value d = parseOptionalNumber (get_prop (snd kv) ''r_value'')
                  \<and> threshold d = parseOptionalNumber (get_prop (snd kv) ''threshold''))))
   \<and> (parseOptionalNumber x = Some n \<longleftrightarrow>
        Number_isFinite n \<and> (x = JNum n \<or> (\<exists>s. x = JStr s \<and> parseFloat s = n)))
   \<and> parseOptionalNumber JUndefined = None"
proof (intro conjI impI ballI)
  assume "\<not> truthy data \<or> typeof data \<noteq> TObject"
  then show "normalizeSensors data = []" by (rule normalizeSensors_not_object)
next
  show "''__proto__'' \<notin> set (map fst (normalizeSensors data))"
    using normalizeSensors_invariant [of data] by simp
next
  have stored: "stored_entry = (\<lambda>kv. fst kv \<noteq> ''__proto__'' \<and> mandatory_ok (snd kv))"
    by (rule ext) (simp add: stored_entry_def)
  assume "distinct (map fst es)"
  then show "map fst (normalizeSensors (JObj es))
      = map fst (filter (\<lambda>kv. fst kv \<noteq> ''__proto__'' \<and> mandatory_ok (snd kv)) es)"
    by (simp add: normalizeSensors_object comp_def stored)
next
  fix kv
  assume d: "distinct (map fst es)" and kv: "kv \<in> set es"
    and ok: "fst kv \<noteq> ''__proto__'' \<and> mandatory_ok (snd kv)"
  let ?out = "map (\<lambda>kv. (fst kv, admitted_sensor (snd kv))) (filter stored_entry es)"
  have st: "stored_entry kv" using ok by (simp add: stored_entry_def)
  have "map fst ?out = map fst (filter stored_entry es)" by (simp add: comp_def)
  moreover have "distinct (map fst (filter stored_entry es))"
    using d by (rule distinct_map_filter)
  ultimately have "distinct (map fst ?out)" by (simp only:)
  moreover have "(fst kv, admitted_sensor (snd kv)) \<in> set ?out" using kv st by force
  ultimately have "map_of ?out (fst kv) = Some (admitted_sensor (snd kv))"
    by (rule map_of_is_SomeI)
  then have look: "map_of (normalizeSensors (JObj es)) (fst kv) = Some (admitted_sensor (snd kv))"
    using d by (simp add: normalizeSensors_object)
  obtain f t ts where "get_prop (snd kv) ''flow'' = JStr f" "get_prop (snd kv) ''total'' = JStr t"
    "get_prop (snd kv) ''timestamp'' = JNum ts"
    using ok by (auto simp: mandatory_ok_def typeof_string_iff typeof_number_iff)
  then have "JStr (flow (admitted_sensor (snd kv))) = get_prop (snd kv) ''flow''
      \<and> JStr (total (admitted_sensor (snd kv))) = get_prop (snd kv) ''total''
      \<and> JNum (timestamp (admitted_sensor (snd kv))) = get_prop (snd kv) ''timestamp''
      \<and> r_value (admitted_sensor (snd kv)) = parseOptionalNumber (get_prop (snd kv) ''r_value'')
      \<and> threshold (admitted_sensor (snd kv)) = parseOptionalNumber (get_prop (snd kv) ''threshold'')"
    by (simp add: admitted_sensor_def)
  with look show "\<exists>d. map_of (normalizeSensors (JObj es)) (fst kv) = Some d
                  \<and> JStr (flow d) = get_prop (snd kv) ''flow''
                  \<and> JStr (total d) = get_prop (snd kv) ''total''
                  \<and> JNum (timestamp d) = get_prop (snd kv) ''timestamp''
                  \<and> r_value d = parseOptionalNumber (get_prop (snd kv) ''r_value'')
                  \<and> threshold d = parseOptionalNumber (get_prop (snd kv) ''threshold'')"
    by blast
next
  show "parseOptionalNumber x = Some n \<longleftrightarrow>
        Number_isFinite n \<and> (x = JNum n \<or> (\<exists>s. x = JStr s \<and> parseFloat s = n))"
    by (rule parseOptionalNumber_Some_iff)
next
  show "parseOptionalNumber JUndefined = None" by (simp add: parseOptionalNumber_def)
qed

theorem normalizeSensors_admits_witness:
  "distinct (map fst (Object_entries example_sensors))
   \<and> map fst (normalizeSensors example_sensors) = [''sensor1'']
   \<and> map_of (normalizeSensors example_sensors) ''sensor1'' =
        Some \<lparr> flow = ''1.2 L/min'', total = ''2.50 L'', timestamp = Fin 1700000000,
               r_value = Some (Fin (3 / 4)), threshold = None \<rparr>
   \<and> distinct (map fst (Object_entries example_proto))
   \<and> map fst (normalizeSensors example_proto) = [''sensor1'']
   \<and> normalizeSensors JNull = [] \<and> normalizeSensors (JStr ''text'') = []"
  using normalizeSensors_admits [of JNull "Object_entries example_sensors" JUndefined NaN]
    normalizeSensors_admits [of "JStr ''text''" "Object_entries example_proto" JUndefined NaN]
  by (simp add: example_sensors_def example_proto_def example_record_def eval_defs)

text \<open>
  C9. \<open>normalizeSensors\<close> is idempotent: applied to its own result, handed back as
  a value, it returns that result again. This holds for every input.
\<close>

theorem normalizeSensors_idempotent:
  "normalizeSensors (sensors_to_js (normalizeSensors data)) = normalizeSensors data"
  using normalizeSensors_invariant [of data] by (intro normalizeSensors_fixpoint) simp_all

theorem normalizeSensors_idempotent_witness:
  "normalizeSensors (sensors_to_js (normalizeSensors example_sensors)) =
     [(''sensor1'', \<lparr> flow = ''1.2 L/min'', total = ''2.50 L'', timestamp = Fin 1700000000,
                      r_value = Some (Fin (3 / 4)), threshold = None \<rparr>)]"
  using normalizeSensors_idempotent [of example_sensors]
  by (simp add: example_sensors_def eval_defs sensors_to_js_def sensor_to_js_def optional_to_js_def)

section \<open>Properties of normalizeHistory\<close>

lemma leaf_admitted:
  "mandatory_ok v \<Longrightarrow> normalizeHistory_leaf sid (k, v) entries = entries @ [history_entry sid v]"
  by (auto simp: mandatory_ok_def typeof_string_iff typeof_number_iff
        normalizeHistory_leaf_def history_entry_def)

lemma leaf_skipped:
  "\<not> mandatory_ok v \<Longrightarrow> normalizeHistory_leaf sid (k, v) entries = entries"
  by (auto simp: mandatory_ok_def typeof_string_iff typeof_number_iff
        normalizeHistory_leaf_def split: jsval.splits)

lemma fold_leaf:
  "fold (normalizeHistory_leaf sid) ls entries =
     entries @ map (\<lambda>leaf. history_entry sid (snd leaf)) (filter (\<lambda>leaf. mandatory_ok (snd leaf)) ls)"
proof (induction ls arbitrary: entries)
  case Nil
  then show ?case by simp
next
  case (Cons l ls)
  obtain k v where l: "l = (k, v)" by (cases l)
  show ?case by (cases "mandatory_ok v") (simp_all add: l leaf_admitted leaf_skipped Cons.IH)
qed

lemma sensor_step_leaves:
  "normalizeHistory_sensor kv entries = entries @ admitted_leaves kv"
  by (cases kv) (simp add: normalizeHistory_sensor_def admitted_leaves_def fold_leaf)

lemma fold_sensor:
  "fold normalizeHistory_sensor es entries = entries @ concat (map admitted_leaves es)"
  by (induction es arbitrary: entries) (simp_all add: sensor_step_leaves)

lemma js_sort_Nil: "js_sort cmp [] = []"
  by (simp add: js_sort_def)

lemma js_sort_Cons: "js_sort cmp (x # xs) = js_insert cmp x (js_sort cmp xs)"
  by (simp add: js_sort_def)

lemma normalizeHistory_flatten:
  "normalizeHistory data =
     js_sort (\<lambda>a b. js_minus (timestamp b) (timestamp a)) (flatten_history data)"
  by (cases data) (simp_all add: normalizeHistory_def flatten_history_def fold_sensor js_sort_Nil)

lemma mset_js_insert: "mset (js_insert cmp x ys) = add_mset x (mset ys)"
  by (induction ys) simp_all

lemma mset_js_sort: "mset (js_sort cmp xs) = mset xs"
  by (induction xs) (simp_all add: js_sort_Nil js_sort_Cons mset_js_insert)

lemma set_js_sort: "set (js_sort cmp xs) = set xs"
  using mset_js_sort [of cmp xs] by (metis set_mset_mset)

lemma set_js_insert: "set (js_insert cmp x ys) = insert x (set ys)"
  using mset_js_insert [of cmp x ys] by (metis set_mset_add_mset_insert set_mset_mset)

lemma js_gt_minus_neq: "js_gt (js_minus b a) (Fin 0) \<Longrightarrow> a \<noteq> b"
  by (cases a; cases b) auto

lemma filter_js_insert:
  "filter (\<lambda>e. timestamp e = t) (js_insert (\<lambda>a b. js_minus (timestamp b) (timestamp a)) x ys)
     = filter (\<lambda>e. timestamp e = t) (x # ys)"
proof (induction ys)
  case Nil
  then show ?case by simp
next
  case (Cons y ys)
  show ?case
  proof (cases "js_gt (js_minus (timestamp y) (timestamp x)) (Fin 0)")
    case True
    then have "timestamp x \<noteq> timestamp y" by (rule js_gt_minus_neq)
    then show ?thesis using True Cons.IH by auto
  next
    case False
    then show ?thesis by simp
  qed
qed

lemma filter_js_sort:
  "filter (\<lambda>e. timestamp e = t) (js_sort (\<lambda>a b. js_minus (timestamp b) (timestamp a)) xs)
     = filter (\<lambda>e. timestamp e = t) xs"
  by (induction xs) (simp_all only: js_sort_Nil js_sort_Cons filter_js_insert filter.simps)

lemma js_ge_trans: "js_ge a b \<Longrightarrow> js_ge b c \<Longrightarrow> js_ge a c"
  by (cases a; cases b; cases c) auto

lemma js_gt_minus_ge: "js_gt (js_minus b a) (Fin 0) \<Longrightarrow> js_ge b a"
  by (cases a; cases b) auto

lemma not_js_gt_minus_ge: "a \<noteq> NaN \<Longrightarrow> b \<noteq> NaN \<Longrightarrow> \<not> js_gt (js_minus b a) (Fin 0) \<Longrightarrow> js_ge a b"
  by (cases a; cases b) auto

lemma sorted_js_insert:
  assumes "timestamp x \<noteq> NaN" and "\<forall>y \<in> set ys. timestamp y \<noteq> NaN"
    and "sorted_wrt (\<lambda>a b. js_ge (timestamp a) (timestamp b)) ys"
  shows "sorted_wrt (\<lambda>a b. js_ge (timestamp a) (timestamp b))
           (js_insert (\<lambda>a b. js_minus (timestamp b) (timestamp a)) x ys)"
  using assms(2,3)
proof (induction ys)
  case Nil
  then show ?case by simp
next
  case (Cons y ys)
  show ?case
  proof (cases "js_gt (js_minus (timestamp y) (timestamp x)) (Fin 0)")
    case True
    then have "js_ge (timestamp y) (timestamp x)" by (rule js_gt_minus_ge)
    then show ?thesis using True Cons by (auto simp: set_js_insert)
  next
    case False
    have xy: "js_ge (timestamp x) (timestamp y)"
      using assms(1) Cons.prems(1) False by (intro not_js_gt_minus_ge) simp_all
    have "\<forall>z \<in> set ys. js_ge (timestamp x) (timestamp z)"
      using xy Cons.prems(2) by (auto intro: js_ge_trans)
    then show ?thesis using False xy Cons.prems(2) by simp
  qed
qed

lemma sorted_js_sort:
  "\<forall>e \<in> set xs. timestamp e \<noteq> NaN \<Longrightarrow>
   sorted_wrt (\<lambda>a b. js_ge (timestamp a) (timestamp b))
     (js_sort (\<lambda>a b. js_minus (timestamp b) (timestamp a)) xs)"
proof (induction xs)
  case Nil
  then show ?case by (simp add: js_sort_Nil)
next
  case (Cons x xs)
  then show ?case
    by (simp add: js_sort_Cons sorted_js_insert set_js_sort)
qed

lemma flatten_no_optional:
  "e \<in> set (flatten_history data) \<Longrightarrow> r_value e = None \<and> threshold e = None"
  by (auto simp: flatten_history_def admitted_leaves_def history_entry_def split: if_splits)

lemmas history_defs = normalizeHistory_def normalizeHistory_sensor_def normalizeHistory_leaf_def
  js_sort_def flatten_history_def admitted_leaves_def history_entry_def mandatory_ok_def

text \<open>
  Counterexample to C6 as stated. The comparator's gate is \<^verbatim>\<open>typeof\<close> alone, so a
  leaf record whose timestamp is NaN is admitted. The result then holds a NaN
  timestamp beside the timestamp 1, and neither order of the two is descending: NaN
  compares with nothing. (This does not depend on the order the engine leaves them in.)
\<close>

theorem nan_timestamp_not_sorted:
  "map timestamp (flatten_history example_history_nan) = [NaN, Fin 1]
   \<and> length (normalizeHistory example_history_nan) = 2
   \<and> set (map timestamp (normalizeHistory example_history_nan)) = {NaN, Fin 1}
   \<and> \<not> sorted_wrt js_ge [NaN, Fin 1]
   \<and> \<not> sorted_wrt js_ge [Fin 1, NaN]
   \<and> \<not> sorted_wrt js_ge (map timestamp (normalizeHistory example_history_nan))"
  by (auto simp: example_history_nan_def history_defs)

text \<open>
  C6 (as the code has it). For every input \<open>normalizeHistory\<close> returns the flattened
  admitted leaf records, each exactly once. For every input none of whose admitted
  timestamps is NaN the result is sorted by timestamp in descending order, and entries
  with equal timestamps keep their encounter order (sensor, then leaf).
\<close>

theorem normalizeHistory_sorted_stable:
  "mset (normalizeHistory data) = mset (flatten_history data)
   \<and> ((\<forall>e \<in> set (flatten_history data). timestamp e \<noteq> NaN) \<longrightarrow>
        sorted_wrt (\<lambda>a b. js_ge (timestamp a) (timestamp b)) (normalizeHistory data)
        \<and> filter (\<lambda>e. timestamp e = t) (normalizeHistory data)
            = filter (\<lambda>e. timestamp e = t) (flatten_history data))"
  by (simp add: normalizeHistory_flatten mset_js_sort filter_js_sort sorted_js_sort)

theorem normalizeHistory_sorted_stable_witness:
  "list_all (\<lambda>e. timestamp e \<noteq> NaN) (flatten_history example_history)
   \<and> map (\<lambda>e. (sensorId e, flow e, timestamp e)) (flatten_history example_history)
        = [(''sensor1'', ''1'', Fin 5), (''sensor1'', ''2'', Fin 9), (''sensor2'', ''3'', Fin 5)]
   \<and> map (\<lambda>e. (sensorId e, flow e, timestamp e)) (normalizeHistory example_history)
        = [(''sensor1'', ''2'', Fin 9), (''sensor1'', ''1'', Fin 5), (''sensor2'', ''3'', Fin 5)]
   \<and> sorted_wrt (\<lambda>a b. js_ge (timestamp a) (timestamp b)) (normalizeHistory example_history)"
  using normalizeHistory_sorted_stable [of example_history "Fin 5"]
  by (simp add: example_history_def history_defs)

text \<open>
  C10. Every entry \<open>normalizeHistory\<close> returns has the fields \<^verbatim>\<open>sensorId\<close>,
  \<^verbatim>\<open>flow\<close>, \<^verbatim>\<open>total\<close> and \<^verbatim>\<open>timestamp\<close> only: \<^verbatim>\<open>r_value\<close> and \<^verbatim>\<open>threshold\<close> of the
  raw leaf record are dropped.
\<close>

theorem normalizeHistory_drops_optional:
  "\<forall>e \<in> set (normalizeHistory data). r_value e = None \<and> threshold e = None"
  by (simp add: normalizeHistory_flatten set_js_sort flatten_no_optional)

theorem normalizeHistory_drops_optional_witness:
  "map (\<lambda>e. (r_value e, threshold e)) (normalizeHistory example_history)
     = [(None, None), (None, None), (None, None)]"
  using normalizeHistory_drops_optional [of example_history]
  by (simp add: example_history_def history_defs)

section \<open>Properties of the rolling chart window\<close>

lemma series_updater_same:
  "chart_series (setChartData_updater sid p cd) sid =
     (if length (chart_series cd sid @ [p]) > CHART_WINDOW_SIZE
      then tl (chart_series cd sid @ [p]) else chart_series cd sid @ [p])"
  by (simp add: chart_series_def setChartData_updater_def Let_def)

lemma series_updater_other:
  "key \<noteq> sid \<Longrightarrow> chart_series (setChartData_updater sid p cd) key = chart_series cd key"
  by (simp add: chart_series_def setChartData_updater_def Let_def)

lemma window_push:
  "(if length (window xs @ [p]) > CHART_WINDOW_SIZE then tl (window xs @ [p]) else window xs @ [p])
     = window (xs @ [p])"
proof (cases "length xs < CHART_WINDOW_SIZE")
  case True
  then show ?thesis by (simp add: window_def)
next
  case False
  have W: "0 < CHART_WINDOW_SIZE" by (simp add: CHART_WINDOW_SIZE_def)
  have len: "length (window xs) = CHART_WINDOW_SIZE" using False by (simp add: window_def)
  then have ne: "window xs \<noteq> []" using W by auto
  have "tl (window xs @ [p]) = tl (window xs) @ [p]" using ne by simp
  also have "tl (window xs) = drop (Suc (length xs - CHART_WINDOW_SIZE)) xs"
    by (simp add: window_def drop_Suc tl_drop)
  also have "drop (Suc (length xs - CHART_WINDOW_SIZE)) xs @ [p]
               = drop (Suc (length xs - CHART_WINDOW_SIZE)) (xs @ [p])"
    using False W by simp
  also have "\<dots> = window (xs @ [p])"
    using False by (simp add: window_def Suc_diff_le)
  finally show ?thesis using len by simp
qed

lemma push_all_series:
  "chart_series cd key = window xs \<Longrightarrow>
   chart_series (push_all pushes cd) key = window (xs @ series_pushes key pushes)"
proof (induction pushes arbitrary: cd xs)
  case Nil
  then show ?case by (simp add: push_all_def series_pushes_def)
next
  case (Cons kp pushes)
  obtain sid p where kp: "kp = (sid, p)" by (cases kp)
  show ?case
  proof (cases "sid = key")
    case True
    have "chart_series (setChartData_updater sid p cd) key =
            (if length (window xs @ [p]) > CHART_WINDOW_SIZE
             then tl (window xs @ [p]) else window xs @ [p])"
      using Cons.prems True by (simp only: series_updater_same)
    then have "chart_series (setChartData_updater sid p cd) key = window (xs @ [p])"
      by (simp only: window_push)
    from Cons.IH [OF this] show ?thesis
      using True by (simp add: push_all_def series_pushes_def kp)
  next
    case False
    have "chart_series (setChartData_updater sid p cd) key = window xs"
      using Cons.prems False by (simp add: series_updater_other)
    from Cons.IH [OF this] show ?thesis
      using False by (simp add: push_all_def series_pushes_def kp)
  qed
qed

lemma initial_series: "chart_series chartData_initial key = window []"
  by (simp add: chart_series_def chartData_initial_def window_def)

lemma push_all_initial:
  "chart_series (push_all pushes chartData_initial) key = window (series_pushes key pushes)"
  using push_all_series [OF initial_series, of pushes key] by simp

lemma length_window: "length (window xs) = min (length xs) CHART_WINDOW_SIZE"
  by (simp add: window_def)

lemma updater_bound:
  assumes "\<forall>key. length (chart_series cd key) \<le> CHART_WINDOW_SIZE"
  shows "length (chart_series (setChartData_updater sid p cd) key) \<le> CHART_WINDOW_SIZE"
proof (cases "key = sid")
  case True
  have "length (chart_series cd sid) \<le> CHART_WINDOW_SIZE" using assms by blast
  then show ?thesis using True by (simp add: series_updater_same)
next
  case False
  then show ?thesis using assms by (simp add: series_updater_other)
qed

text \<open>
  C4. The window size is 100. A push appends the point at the tail of the series of
  its key and, when the series is then longer than the window, removes exactly one
  point from the head; it keeps every series within the window when every series was
  within it. From the initial chart data, after any run of pushes, the series of every
  key is within the window and holds the last 100 points pushed to that key, in push
  order; after more than 100 pushes to a key its length is exactly 100.
\<close>

theorem chart_window_bounded:
  "CHART_WINDOW_SIZE = 100
   \<and> chart_series (setChartData_updater sid p cd) sid =
       (if length (chart_series cd sid @ [p]) > CHART_WINDOW_SIZE
        then tl (chart_series cd sid @ [p]) else chart_series cd sid @ [p])
   \<and> ((\<forall>k. length (chart_series cd k) \<le> CHART_WINDOW_SIZE) \<longrightarrow>
        (\<forall>k. length (chart_series (setChartData_updater sid p cd) k) \<le> CHART_WINDOW_SIZE))
   \<and> length (chart_series (push_all pushes chartData_initial) key) \<le> CHART_WINDOW_SIZE
   \<and> chart_series (push_all pushes chartData_initial) key =
       drop (length (series_pushes key pushes) - CHART_WINDOW_SIZE) (series_pushes key pushes)
   \<and> (CHART_WINDOW_SIZE < length (series_pushes key pushes) \<longrightarrow>
        length (chart_series (push_all pushes chartData_initial) key) = CHART_WINDOW_SIZE)"
proof (intro conjI impI allI)
  show "CHART_WINDOW_SIZE = 100" by (simp add: CHART_WINDOW_SIZE_def)
  show "chart_series (setChartData_updater sid p cd) sid =
       (if length (chart_series cd sid @ [p]) > CHART_WINDOW_SIZE
        then tl (chart_series cd sid @ [p]) else chart_series cd sid @ [p])"
    by (rule series_updater_same)
  show "length (chart_series (setChartData_updater sid p cd) k) \<le> CHART_WINDOW_SIZE"
    if "\<forall>k. length (chart_series cd k) \<le> CHART_WINDOW_SIZE" for k
    using that by (rule updater_bound)
  show "length (chart_series (push_all pushes chartData_initial) key) \<le> CHART_WINDOW_SIZE"
    by (simp add: push_all_initial length_window)
  show "chart_series (push_all pushes chartData_initial) key =
       drop (length (series_pushes key pushes) - CHART_WINDOW_SIZE) (series_pushes key pushes)"
    by (simp add: push_all_initial window_def)
  show "length (chart_series (push_all pushes chartData_initial) key) = CHART_WINDOW_SIZE"
    if "CHART_WINDOW_SIZE < length (series_pushes key pushes)"
    using that by (simp add: push_all_initial length_window)
qed

theorem chart_window_bounded_witness:
  "CHART_WINDOW_SIZE < length (series_pushes ''sensor1'' (replicate 101 (''sensor1'', example_point)))
   \<and> length (chart_series (push_all (replicate 101 (''sensor1'', example_point)) chartData_initial)
        ''sensor1'') = 100
   \<and> (\<forall>k. length (chart_series chartData_initial k) \<le> CHART_WINDOW_SIZE)
   \<and> (\<forall>k. length (chart_series
               (setChartData_updater ''sensor5'' example_point chartData_initial) k) \<le> 100)"
  using chart_window_bounded [of "''sensor5''" example_point chartData_initial
      "replicate 101 (''sensor1'', example_point)" "''sensor1''"]
  by (simp add: series_pushes_def chart_series_def chartData_initial_def)

section \<open>Properties of the history filter\<close>

lemma js_ge_NegInf: "js_ge a NegInf = (a \<noteq> NaN)"
  by (cases a) simp_all

text \<open>
  Counterexample to C7 as stated. For the all-time filter the cutoff is
  \<^verbatim>\<open>now - Infinity\<close>, and \<^verbatim>\<open>NaN >= -Infinity\<close> is false: an entry whose timestamp
  is NaN, which \<open>normalizeHistory\<close> admits, is dropped.
\<close>

theorem all_time_drops_nan:
  "map timestamp [example_entry_nan, example_entry 1] = [NaN, Fin 1]
   \<and> filteredHistory [example_entry_nan, example_entry 1] AllTime 1700000000000
        = [example_entry 1]
   \<and> length (normalizeHistory example_history_nan) = 2
   \<and> map timestamp (filteredHistory (normalizeHistory example_history_nan) AllTime 1700000000000)
        = [Fin 1]"
  by (simp add: filteredHistory_def example_entry_nan_def example_entry_def
        example_history_nan_def history_defs)

text \<open>
  C7 (as the code has it). With \<open>now\<close> the current time in seconds, the 24-hour filter
  keeps exactly the entries with \<open>timestamp \<ge> now - 86400\<close> and the 7-day filter exactly
  those with \<open>timestamp \<ge> now - 604800\<close>; the comparison includes the cutoff. The
  all-time filter keeps exactly the entries whose timestamp is not NaN, so every entry
  of a history without a NaN timestamp. Of three entries one hour, two days and ten
  days old, the 7-day filter drops the ten-day-old one only.
\<close>

theorem filteredHistory_window:
  "filteredHistory history Today dateNow
     = filter (\<lambda>e. js_ge (timestamp e) (Fin (of_int dateNow / 1000 - 86400))) history
   \<and> filteredHistory history SevenDays dateNow
     = filter (\<lambda>e. js_ge (timestamp e) (Fin (of_int dateNow / 1000 - 604800))) history
   \<and> js_ge (Fin t) (Fin c) = (c \<le> t)
   \<and> filteredHistory history AllTime dateNow = filter (\<lambda>e. timestamp e \<noteq> NaN) history
   \<and> ((\<forall>e \<in> set history. timestamp e \<noteq> NaN) \<longrightarrow> filteredHistory history AllTime dateNow = history)
   \<and> (timestamp e1 = Fin (of_int dateNow / 1000 - 3600)
        \<and> timestamp e2 = Fin (of_int dateNow / 1000 - 2 * 86400)
        \<and> timestamp e3 = Fin (of_int dateNow / 1000 - 10 * 86400)
        \<longrightarrow> filteredHistory [e1, e2, e3] SevenDays dateNow = [e1, e2])"
  by (simp add: filteredHistory_def js_ge_NegInf)

theorem filteredHistory_window_witness:
  "list_all (\<lambda>e. timestamp e \<noteq> NaN) [example_entry 1699913600, example_entry 1699913599]
   \<and> filteredHistory [example_entry 1699913600, example_entry 1699913599] AllTime 1700000000000
        = [example_entry 1699913600, example_entry 1699913599]
   \<and> filteredHistory [example_entry_nan, example_entry 1699913600] AllTime 1700000000000
        = [example_entry 1699913600]
   \<and> filteredHistory [example_entry 1699913600, example_entry 1699913599] Today 1700000000000
        = [example_entry 1699913600]
   \<and> timestamp (example_entry 1699996400) = Fin (of_int 1700000000000 / 1000 - 3600)
   \<and> timestamp (example_entry 1699827200) = Fin (of_int 1700000000000 / 1000 - 2 * 86400)
   \<and> timestamp (example_entry 1699136000) = Fin (of_int 1700000000000 / 1000 - 10 * 86400)
   \<and> filteredHistory [example_entry 1699996400, example_entry 1699827200, example_entry 1699136000]
        SevenDays 1700000000000
        = [example_entry 1699996400, example_entry 1699827200]"
  using filteredHistory_window [of "[example_entry 1699913600, example_entry 1699913599]"
      1700000000000 0 0 "example_entry 1699996400" "example_entry 1699827200"
      "example_entry 1699136000"]
    filteredHistory_window [of "[example_entry_nan, example_entry 1699913600]"
      1700000000000 0 0 "example_entry 1699996400" "example_entry 1699827200"
      "example_entry 1699136000"]
  by (simp add: example_entry_def example_entry_nan_def)

section \<open>Properties of the total volume\<close>

lemma parseMetric_finite: "parseMetric s = Fin (the_finite (parseMetric s))"
  by (cases "parseFloat (filter (\<lambda>c. is_digit c \<or> c = CHR ''.'' \<or> c = CHR ''-'') s)")
     (simp_all add: parseMetric_def Let_def)

lemma fold_total:
  "fold (\<lambda>kv acc. js_plus acc (parseMetric (total (snd kv)))) entries (Fin a)
     = Fin (a + sum_list (map (\<lambda>kv. the_finite (parseMetric (total (snd kv)))) entries))"
proof (induction entries arbitrary: a)
  case Nil
  then show ?case by simp
next
  case (Cons e entries)
  have "js_plus (Fin a) (parseMetric (total (snd e)))
          = Fin (a + the_finite (parseMetric (total (snd e))))"
    by (subst parseMetric_finite) simp
  then show ?case by (simp add: Cons.IH add.assoc)
qed

lemma summary_total_sum:
  "summary_total entries = Fin (sum_list (map (\<lambda>kv. the_finite (parseMetric (total (snd kv)))) entries))"
  using fold_total [where a = 0 and entries = entries] by (simp add: summary_total_def)

lemma sum_list_js_sort: "sum_list (map f (js_sort cmp xs)) = sum_list (map (f :: 'a \<Rightarrow> rat) xs)"
proof -
  have "mset (map f (js_sort cmp xs)) = mset (map f xs)" by (simp add: mset_js_sort)
  then show ?thesis by (metis sum_mset_sum_list)
qed

lemma takeWhile_no_digit: "\<forall>c \<in> set r. \<not> is_digit c \<Longrightarrow> takeWhile is_digit r = []"
  by (cases r) simp_all

lemma parseFloat_no_digit:
  assumes "\<forall>c \<in> set s. \<not> is_digit c"
  shows "\<not> Number_isFinite (parseFloat s)"
proof -
  define t where "t = dropWhile is_space s"
  define rest where
    "rest = (case t of [] \<Rightarrow> [] | c # cs \<Rightarrow> if c = CHR ''-'' \<or> c = CHR ''+'' then cs else t)"
  have t: "set t \<subseteq> set s" unfolding t_def by (auto dest: set_dropWhileD)
  have "set rest \<subseteq> set t" by (cases t) (auto simp: rest_def)
  with t have rest: "\<forall>c \<in> set rest. \<not> is_digit c" using assms by blast
  have ip: "takeWhile is_digit rest = []" using rest by (rule takeWhile_no_digit)
  then have r1: "dropWhile is_digit rest = rest"
    by (metis takeWhile_dropWhile_id append_Nil)
  have fp: "(case rest of [] \<Rightarrow> [] | c # cs \<Rightarrow> if c = CHR ''.'' then takeWhile is_digit cs else []) = []"
  proof (cases rest)
    case Nil
    then show ?thesis by simp
  next
    case (Cons c cs)
    then have "\<forall>c \<in> set cs. \<not> is_digit c" using rest by simp
    then show ?thesis using Cons by (simp add: takeWhile_no_digit)
  qed
  have "parseFloat s =
          (if take 8 rest = ''Infinity''
           then (if (case t of [] \<Rightarrow> False | c # cs \<Rightarrow> c = CHR ''-'') then NegInf else PosInf)
           else NaN)"
    unfolding parseFloat_def Let_def t_def [symmetric] rest_def [symmetric]
    by (simp only: ip r1 fp simp_thms if_True)
  then show ?thesis by simp
qed

lemma parseMetric_no_digit:
  assumes "\<forall>c \<in> set s. \<not> is_digit c"
  shows "parseMetric s = Fin 0"
proof -
  have "\<forall>c \<in> set (filter (\<lambda>c. is_digit c \<or> c = CHR ''.'' \<or> c = CHR ''-'') s). \<not> is_digit c"
    using assms by simp
  then have "\<not> Number_isFinite (parseFloat (filter (\<lambda>c. is_digit c \<or> c = CHR ''.'' \<or> c = CHR ''-'') s))"
    by (rule parseFloat_no_digit)
  then show ?thesis by (simp add: parseMetric_def Let_def)
qed

lemmas pf_defs = parseMetric_def parseFloat_def is_digit_def is_space_def digits_val_def digit_val_def
  pow10_def exponent_part_def number_value_def

text \<open>
  C8. The total the summary shows is the sum of \<open>parseMetric\<close> of \<^verbatim>\<open>total\<close> over all
  sensors of the set, whatever order the collation puts them in: the displayed text is
  that sum rendered with three decimals and the unit, and \<^verbatim>\<open>0.000 L\<close> for the empty
  set. \<open>parseMetric\<close> always returns a finite number: it parses what is left of the
  string after removing every character other than a digit, a dot and a minus sign,
  and returns 0 when that gives no finite number, in particular for the empty string
  and for a string without a digit. It maps \<^verbatim>\<open>2.50 L\<close> to 2.5, the empty string to 0
  and \<^verbatim>\<open>abc\<close> to 0.
\<close>

theorem summary_total_volume:
  "summary_total (sensorEntries localeCompare ss)
     = Fin (sum_list (map (\<lambda>kv. the_finite (parseMetric (total (snd kv)))) ss))
   \<and> totalVolume (summary toFixed3 toLocaleString (sensorEntries localeCompare ss))
     = (if ss = [] then ''0.000 L''
        else toFixed3 (Fin (sum_list (map (\<lambda>kv. the_finite (parseMetric (total (snd kv)))) ss))) @ '' L'')
   \<and> Number_isFinite (parseMetric s)
   \<and> parseMetric s =
       (if Number_isFinite (parseFloat (filter (\<lambda>c. is_digit c \<or> c = CHR ''.'' \<or> c = CHR ''-'') s))
        then parseFloat (filter (\<lambda>c. is_digit c \<or> c = CHR ''.'' \<or> c = CHR ''-'') s) else Fin 0)
   \<and> ((\<forall>c \<in> set s. \<not> is_digit c) \<longrightarrow> parseMetric s = Fin 0)
   \<and> parseMetric ''2.50 L'' = Fin (5 / 2)
   \<and> parseMetric [] = Fin 0
   \<and> parseMetric ''abc'' = Fin 0"
proof (intro conjI impI)
  have perm: "mset (sensorEntries localeCompare ss) = mset ss"
    by (simp add: sensorEntries_def mset_js_sort)
  show tot: "summary_total (sensorEntries localeCompare ss)
     = Fin (sum_list (map (\<lambda>kv. the_finite (parseMetric (total (snd kv)))) ss))"
    by (simp add: summary_total_sum sensorEntries_def sum_list_js_sort)
  have "sensorEntries localeCompare ss = [] \<longleftrightarrow> ss = []"
    using perm by (metis mset_zero_iff)
  then show "totalVolume (summary toFixed3 toLocaleString (sensorEntries localeCompare ss))
     = (if ss = [] then ''0.000 L''
        else toFixed3 (Fin (sum_list (map (\<lambda>kv. the_finite (parseMetric (total (snd kv)))) ss))) @ '' L'')"
    by (simp add: summary_def tot Let_def)
  show "Number_isFinite (parseMetric s)" by (subst parseMetric_finite) simp
  show "parseMetric s =
       (if Number_isFinite (parseFloat (filter (\<lambda>c. is_digit c \<or> c = CHR ''.'' \<or> c = CHR ''-'') s))
        then parseFloat (filter (\<lambda>c. is_digit c \<or> c = CHR ''.'' \<or> c = CHR ''-'') s) else Fin 0)"
    using parseFloat_no_digit [of "[]"] by (simp add: parseMetric_def Let_def)
  show "parseMetric s = Fin 0" if "\<forall>c \<in> set s. \<not> is_digit c"
    using that by (rule parseMetric_no_digit)
  show "parseMetric ''2.50 L'' = Fin (5 / 2)" by (simp add: pf_defs)
  show "parseMetric [] = Fin 0" by (simp add: parseMetric_def)
  show "parseMetric ''abc'' = Fin 0" by (simp add: pf_defs)
qed

theorem summary_total_volume_witness:
  "list_all (\<lambda>c. \<not> is_digit c) ''n/a''
   \<and> parseMetric ''n/a'' = Fin 0
   \<and> summary_total (sensorEntries (\<lambda>a b. Fin 0) example_set) = Fin (15 / 4)"
  using summary_total_volume [of "\<lambda>a b. Fin 0" example_set no_label no_label "''n/a''"]
  by (simp add: example_set_def pf_defs)

section \<open>Properties of the subscriptions\<close>

lemmas sensor_defs = sensor_run_def sensor_mount_def subscribeToPath_def on_snapshot_def on_error_def
  tryPaths_def remove_listener_def

lemmas chart_defs = chart_run_def chart_mount_def chart_subscribeToPath_def chart_on_snapshot_def
  chart_on_error_def chart_tryPaths_def sensorIds_def remove_listener_def

text \<open>
  Counterexample to C2 as stated. The primary path delivers a non-empty sensor set
  and then \<^verbatim>\<open>null\<close>: the callback of the primary path subscribes to the fallback
  path, and the sensor set is left as it was. A candidate that has delivered data is
  thus not terminal, unless it is the last.
\<close>

theorem adopted_primary_falls_back:
  "map fst (sensors (sensor_run [Snapshot 0 example_sensors] sensor_mount)) = [''sensor1'']
   \<and> listeners (sensor_run [Snapshot 0 example_sensors] sensor_mount) = [(0, 0)]
   \<and> listeners (sensor_run [Snapshot 0 example_sensors, Snapshot 0 JNull] sensor_mount)
        = [(0, 0), (1, 1)]
   \<and> map fst (sensors (sensor_run [Snapshot 0 example_sensors, Snapshot 0 JNull] sensor_mount))
        = [''sensor1'']"
  by (simp add: sensor_defs example_sensors_def normalizeSensors_def normalizeSensors_step_def
        parseOptionalNumber_def obj_set_def)

text \<open>
  C2 (as the code has it). Only the last candidate path is terminal. An empty
  notification on a listener of the last candidate empties the sensor set and
  subscribes to nothing; an empty notification on a listener of an earlier candidate
  subscribes to the next candidate, whether or not that listener delivered data before,
  and leaves the sensor set as it was.
\<close>

theorem empty_snapshot_last_candidate:
  "map_of (listeners s) h = Some pathIndex \<and> \<not> truthy data \<longrightarrow>
     (pathIndex \<ge> length tryPaths - 1 \<longrightarrow>
        sensors (sensor_step (Snapshot h data) s) = []
        \<and> listeners (sensor_step (Snapshot h data) s) = listeners s
        \<and> unsubscribe (sensor_step (Snapshot h data) s) = unsubscribe s)
     \<and> (pathIndex < length tryPaths - 1 \<longrightarrow>
        sensors (sensor_step (Snapshot h data) s) = sensors s
        \<and> listeners (sensor_step (Snapshot h data) s) = listeners s @ [(fresh s, pathIndex + 1)])"
  by (simp add: on_snapshot_def subscribeToPath_def tryPaths_def)

theorem empty_snapshot_last_candidate_witness:
  "map_of (listeners (sensor_run [Snapshot 0 JNull, Snapshot 1 example_sensors] sensor_mount)) 1 = Some 1
   \<and> \<not> truthy JNull
   \<and> 1 \<ge> length tryPaths - 1
   \<and> sensors (sensor_run [Snapshot 0 JNull, Snapshot 1 example_sensors] sensor_mount) \<noteq> []
   \<and> sensors (sensor_step (Snapshot 1 JNull)
        (sensor_run [Snapshot 0 JNull, Snapshot 1 example_sensors] sensor_mount)) = []
   \<and> listeners (sensor_step (Snapshot 1 JNull)
        (sensor_run [Snapshot 0 JNull, Snapshot 1 example_sensors] sensor_mount)) = [(0, 0), (1, 1)]
   \<and> map_of (listeners sensor_mount) 0 = Some 0
   \<and> 0 < length tryPaths - 1
   \<and> listeners (sensor_step (Snapshot 0 JNull) sensor_mount) = [(0, 0), (1, 1)]"
  using empty_snapshot_last_candidate
    [of "sensor_run [Snapshot 0 JNull, Snapshot 1 example_sensors] sensor_mount" 1 1 JNull]
    empty_snapshot_last_candidate [of sensor_mount 0 0 JNull]
  by (simp add: sensor_defs example_sensors_def normalizeSensors_def normalizeSensors_step_def
        parseOptionalNumber_def obj_set_def)

lemma set_remove_listener: "set (remove_listener h ls) \<subseteq> set ls"
  by (auto simp: remove_listener_def)

lemma inv_subscribe: "chart_inv c \<Longrightarrow> chart_inv (chart_subscribeToPath sid i c)"
  by (auto simp: chart_inv_def chart_subscribeToPath_def)

lemma inv_on_snapshot: "chart_inv c \<Longrightarrow> chart_inv (chart_on_snapshot fmt sid i data c)"
proof -
  assume inv: "chart_inv c"
  have keep: "chart_inv (c\<lparr> chartData := cd \<rparr>)" for cd using inv by (simp add: chart_inv_def)
  show ?thesis
    unfolding chart_on_snapshot_def
    using inv keep inv_subscribe [OF inv]
    by (auto split: jsval.splits)
qed

lemma inv_on_error: "chart_inv c \<Longrightarrow> chart_inv (chart_on_error sid i c)"
  by (simp add: chart_on_error_def inv_subscribe)

lemma inv_remove: "chart_inv c \<Longrightarrow> chart_inv (c\<lparr> chart_listeners := remove_listener h (chart_listeners c) \<rparr>)"
  using set_remove_listener [of h "chart_listeners c"] by (auto simp: chart_inv_def)

lemma fold_remove_listener:
  "fold remove_listener hs ls = filter (\<lambda>l. fst l \<notin> set hs) ls"
proof (induction hs arbitrary: ls)
  case Nil
  then show ?case by simp
next
  case (Cons h hs)
  have "fold remove_listener (h # hs) ls = filter (\<lambda>l. fst l \<notin> set hs) (remove_listener h ls)"
    by (simp add: Cons.IH)
  also have "\<dots> = filter (\<lambda>l. fst l \<notin> set (h # hs)) ls"
    by (induction ls) (auto simp: remove_listener_def)
  finally show ?case .
qed

lemma cleanup_empties_listeners:
  "chart_inv c \<Longrightarrow> chart_listeners (chart_step fmt Cleanup c) = []"
  by (simp add: fold_remove_listener chart_inv_def)

lemma inv_step: "chart_inv c \<Longrightarrow> chart_inv (chart_step fmt e c)"
proof (cases e)
  case (Snapshot h data)
  assume "chart_inv c"
  then show ?thesis using Snapshot by (auto simp: inv_on_snapshot split: option.splits)
next
  case (Cancelled h)
  assume "chart_inv c"
  then show ?thesis using Cancelled by (auto simp: inv_on_error inv_remove split: option.splits)
next
  case Cleanup
  assume "chart_inv c"
  then show ?thesis using Cleanup by (auto simp: chart_inv_def fold_remove_listener)
qed

lemma inv_run: "chart_inv c \<Longrightarrow> chart_inv (chart_run fmt evs c)"
  unfolding chart_run_def by (induction evs arbitrary: c) (simp_all add: inv_step)

lemma inv_mount: "chart_inv chart_mount"
proof -
  have step: "chart_inv c \<Longrightarrow> chart_inv (fold (\<lambda>sid. chart_subscribeToPath sid 0) sids c)" for sids c
    by (induction sids arbitrary: c) (simp_all add: inv_subscribe)
  show ?thesis unfolding chart_mount_def by (rule step) (simp add: chart_inv_def)
qed

lemma no_listener_step: "chart_listeners c = [] \<Longrightarrow> chart_step fmt e c = c"
  by (cases e) (simp_all add: fold_remove_listener)

lemma no_listener_run: "chart_listeners c = [] \<Longrightarrow> chart_run fmt evs c = c"
  unfolding chart_run_def by (induction evs) (simp_all add: no_listener_step)

lemma listeners_kept_on_snapshot:
  "set (chart_listeners c) \<subseteq> set (chart_listeners (chart_step fmt (Snapshot h data) c))"
  by (auto simp: chart_on_snapshot_def chart_subscribeToPath_def split: option.splits jsval.splits)

text \<open>
  Counterexample to C5 as stated. After a fallback two listeners of one stream are
  registered at once, in the sensor-set effect and in the chart effect alike:
  subscribing to the next candidate does not release the previous one.
\<close>

theorem fallback_keeps_previous_listener:
  "listeners (sensor_run [Snapshot 0 JNull] sensor_mount) = [(0, 0), (1, 1)]
   \<and> chart_listeners (chart_run no_label [Snapshot 0 JNull] chart_mount)
        = [(0, ''sensor1'', 0), (1, ''sensor2'', 0), (2, ''sensor3'', 0), (3, ''sensor4'', 0),
           (4, ''sensor1'', 1)]"
  by (simp add: sensor_defs chart_defs)

text \<open>
  The sensor-set effect keeps the last handle only, so its cleanup releases the
  fallback listener and leaves the listener of the primary path registered; a snapshot
  on it still writes the sensor set.
\<close>

lemma sensor_cleanup_leaves_listener:
  "listeners (sensor_run [Snapshot 0 JNull, Cleanup] sensor_mount) = [(0, 0)]
   \<and> sensors (sensor_run [Snapshot 0 JNull, Cleanup] sensor_mount) = []
   \<and> map fst (sensors (sensor_run [Snapshot 0 JNull, Cleanup, Snapshot 0 example_sensors]
                  sensor_mount)) = [''sensor1'']"
  by (simp add: sensor_defs example_sensors_def normalizeSensors_def normalizeSensors_step_def
        parseOptionalNumber_def obj_set_def)

text \<open>
  C5 (as the code has it). In the chart effect the cleanup releases every listener the
  effect registered, those registered by a fallback included, after any run of events,
  and no event changes the state afterwards. Until then the listeners accumulate: a
  snapshot never releases a listener, and an empty snapshot on a listener of the first
  candidate registers one for the second candidate beside it and records its handle.
\<close>

theorem chart_cleanup_releases_all:
  "chart_listeners (chart_step fmt Cleanup (chart_run fmt evs chart_mount)) = []
   \<and> chart_run fmt later (chart_step fmt Cleanup (chart_run fmt evs chart_mount))
        = chart_step fmt Cleanup (chart_run fmt evs chart_mount)
   \<and> set (chart_listeners c) \<subseteq> set (chart_listeners (chart_step fmt (Snapshot h data) c))
   \<and> (map_of (chart_listeners c) h = Some (sid, 0) \<and> \<not> truthy data \<longrightarrow>
        chart_listeners (chart_step fmt (Snapshot h data) c)
          = chart_listeners c @ [(chart_fresh c, sid, 1)]
        \<and> unsubscribes (chart_step fmt (Snapshot h data) c) = unsubscribes c @ [chart_fresh c])"
proof (intro conjI impI)
  have inv: "chart_inv (chart_run fmt evs chart_mount)" by (simp add: inv_run inv_mount)
  then show none: "chart_listeners (chart_step fmt Cleanup (chart_run fmt evs chart_mount)) = []"
    by (rule cleanup_empties_listeners)
  then show "chart_run fmt later (chart_step fmt Cleanup (chart_run fmt evs chart_mount))
        = chart_step fmt Cleanup (chart_run fmt evs chart_mount)"
    by (rule no_listener_run)
  show "set (chart_listeners c) \<subseteq> set (chart_listeners (chart_step fmt (Snapshot h data) c))"
    by (rule listeners_kept_on_snapshot)
  assume a: "map_of (chart_listeners c) h = Some (sid, 0) \<and> \<not> truthy data"
  then show "chart_listeners (chart_step fmt (Snapshot h data) c)
          = chart_listeners c @ [(chart_fresh c, sid, 1)]"
    by (simp add: chart_on_snapshot_def chart_subscribeToPath_def chart_tryPaths_def)
  from a show "unsubscribes (chart_step fmt (Snapshot h data) c) = unsubscribes c @ [chart_fresh c]"
    by (simp add: chart_on_snapshot_def chart_subscribeToPath_def chart_tryPaths_def)
qed

theorem chart_cleanup_releases_all_witness:
  "map_of (chart_listeners chart_mount) 0 = Some (''sensor1'', 0)
   \<and> \<not> truthy JNull
   \<and> chart_listeners (chart_step no_label (Snapshot 0 JNull) chart_mount)
        = [(0, ''sensor1'', 0), (1, ''sensor2'', 0), (2, ''sensor3'', 0), (3, ''sensor4'', 0),
           (4, ''sensor1'', 1)]
   \<and> chart_listeners (chart_step no_label Cleanup
        (chart_run no_label [Snapshot 0 JNull] chart_mount)) = []
   \<and> chart_run no_label [Snapshot 4 example_sensors, Snapshot 0 JNull]
        (chart_step no_label Cleanup (chart_run no_label [Snapshot 0 JNull] chart_mount))
        = chart_step no_label Cleanup (chart_run no_label [Snapshot 0 JNull] chart_mount)"
  using chart_cleanup_releases_all [of no_label "[Snapshot 0 JNull]"
      "[Snapshot 4 example_sensors, Snapshot 0 JNull]" chart_mount 0 JNull "''sensor1''"]
  by (simp add: chart_defs)

end
